theory Spec2Isabelle
  imports Main "HOL-Library.Sublist"
begin

section \<open>Python strings\<close>

text \<open>
  A Python \<^verbatim>\<open>str\<close> is modelled as a \<^typ>\<open>string\<close>, each character standing for the
  code point of the same number (0 to 255).  On these code points \<^verbatim>\<open>str.lower\<close>,
  \<^verbatim>\<open>str.isspace\<close> and \<^verbatim>\<open>repr\<close> are modelled exactly; text with code points above 255
  is outside the model.  The fixed messages of the source that contain such characters
  are constructors of \<open>message\<close> and \<open>reply\<close> below.
\<close>

definition lower_char :: "char \<Rightarrow> char" where
  "lower_char c =
     (let n = (of_char c :: nat)
      in if (65 \<le> n \<and> n \<le> 90) \<or> (192 \<le> n \<and> n \<le> 222 \<and> n \<noteq> 215)
         then char_of (n + 32) else c)"

definition lower :: "string \<Rightarrow> string" where
  "lower s = map lower_char s"

definition isspace :: "char \<Rightarrow> bool" where
  "isspace c =
     (let n = (of_char c :: nat)
      in (9 \<le> n \<and> n \<le> 13) \<or> (28 \<le> n \<and> n \<le> 32) \<or> n = 133 \<or> n = 160)"

definition strip :: "string \<Rightarrow> string" where
  "strip s = rev (dropWhile isspace (rev (dropWhile isspace s)))"

text \<open>\<^verbatim>\<open>k in s\<close> on strings: \<open>k\<close> occurs in \<open>s\<close> as a contiguous substring.\<close>

fun contains :: "string \<Rightarrow> string \<Rightarrow> bool" where
  "contains k [] = (k = [])"
| "contains k (c # cs) = (prefix k (c # cs) \<or> contains k cs)"

section \<open>The query classifier (main.py)\<close>

definition geo_keywords :: "string list" where
  "geo_keywords =
     [''trump'', ''biden'', ''war'', ''attack'', ''venezuela'',
      ''election'', ''sanction'', ''geopolitics'', ''conflict'']"

definition ticker_keywords :: "string list" where
  "ticker_keywords =
     [''amzn'', ''msft'', ''googl'', ''meta'', ''snap'',
      ''ttwo'', ''ea'', ''atvi'', ''nvda'', ''amd'', ''jpm'', ''bac'']"

definition classify :: "string \<Rightarrow> string" where
  "classify query =
     (let q = lower query
      in if list_ex (\<lambda>keyword. contains keyword q) geo_keywords then ''fact_check''
         else if list_ex (\<lambda>ticker. contains ticker q) ticker_keywords then ''finance_only''
         else ''mixed'')"

section \<open>Python values\<close>

text \<open>
  The responses of the external agents and the values that \<^verbatim>\<open>json.loads\<close> returns are
  dynamically typed.  \<open>PObj attrs s\<close> is an object with the data attributes \<open>attrs\<close> whose
  \<^verbatim>\<open>str()\<close> and \<^verbatim>\<open>repr()\<close> are \<open>s\<close>; it has no \<^verbatim>\<open>__bool__\<close> or \<^verbatim>\<open>__len__\<close>, so it is truthy,
  and no methods \<^verbatim>\<open>get\<close> or \<^verbatim>\<open>strip\<close>.  A dict has string keys and is kept as an association
  list in insertion order.  Floats are not modelled.
\<close>

datatype pyval =
    PNone
  | PBool bool
  | PInt int
  | PStr string
  | PList "pyval list"
  | PDict "(string \<times> pyval) list"
  | PObj "(string \<times> pyval) list" string

datatype exn =
    AttributeError
  | EOFError
  | ExternalError string

fun truthy :: "pyval \<Rightarrow> bool" where
  "truthy PNone = False"
| "truthy (PBool b) = b"
| "truthy (PInt i) = (i \<noteq> 0)"
| "truthy (PStr s) = (s \<noteq> [])"
| "truthy (PList xs) = (xs \<noteq> [])"
| "truthy (PDict kvs) = (kvs \<noteq> [])"
| "truthy (PObj attrs s) = True"

fun str_nat :: "nat \<Rightarrow> string" where
  "str_nat n =
     (if n < 10 then [char_of (48 + n)]
      else str_nat (n div 10) @ [char_of (48 + n mod 10)])"

declare str_nat.simps [simp del]

definition str_int :: "int \<Rightarrow> string" where
  "str_int i = (if i < 0 then CHR ''-'' # str_nat (nat (- i)) else str_nat (nat i))"

definition hexdigit :: "nat \<Rightarrow> char" where
  "hexdigit d = (if d < 10 then char_of (48 + d) else char_of (87 + d))"

definition repr_char :: "char \<Rightarrow> char \<Rightarrow> string" where
  "repr_char quote c =
     (let n = (of_char c :: nat)
      in if c = quote \<or> c = CHR 0x5C then [CHR 0x5C, c]
         else if n = 9 then [CHR 0x5C, CHR ''t'']
         else if n = 10 then [CHR 0x5C, CHR ''n'']
         else if n = 13 then [CHR 0x5C, CHR ''r'']
         else if n < 32 \<or> (127 \<le> n \<and> n \<le> 160) \<or> n = 173
           then [CHR 0x5C, CHR ''x'', hexdigit (n div 16), hexdigit (n mod 16)]
         else [c])"

definition repr_str :: "string \<Rightarrow> string" where
  "repr_str s =
     (let quote = (if CHR 0x27 \<in> set s \<and> CHR 0x22 \<notin> set s then CHR 0x22 else CHR 0x27)
      in quote # concat (map (repr_char quote) s) @ [quote])"

fun join :: "string \<Rightarrow> string list \<Rightarrow> string" where
  "join sep [] = []"
| "join sep [p] = p"
| "join sep (p # q # ps) = p @ sep @ join sep (q # ps)"

text \<open>\<open>py_fmt v r\<close> is \<^verbatim>\<open>repr(v)\<close> when \<open>r\<close> holds and \<^verbatim>\<open>str(v)\<close> otherwise.\<close>

fun py_fmt :: "pyval \<Rightarrow> bool \<Rightarrow> string" where
  "py_fmt PNone r = ''None''"
| "py_fmt (PBool b) r = (if b then ''True'' else ''False'')"
| "py_fmt (PInt i) r = str_int i"
| "py_fmt (PStr s) r = (if r then repr_str s else s)"
| "py_fmt (PList xs) r = ''['' @ join '', '' (map (\<lambda>x. py_fmt x True) xs) @ '']''"
| "py_fmt (PDict kvs) r =
     ''{'' @ join '', '' (map (\<lambda>kv. repr_str (fst kv) @ '': '' @ py_fmt (snd kv) True) kvs) @ ''}''"
| "py_fmt (PObj attrs s) r = s"

definition py_str :: "pyval \<Rightarrow> string" where
  "py_str v = py_fmt v False"

text \<open>\<^verbatim>\<open>hasattr(v, name)\<close> and \<^verbatim>\<open>getattr(v, name, default)\<close> for a data attribute.\<close>

fun hasattr :: "pyval \<Rightarrow> string \<Rightarrow> bool" where
  "hasattr (PObj attrs s) name = (map_of attrs name \<noteq> None)"
| "hasattr v name = False"

fun getattr :: "pyval \<Rightarrow> string \<Rightarrow> pyval \<Rightarrow> pyval" where
  "getattr (PObj attrs s) name d = (case map_of attrs name of Some v \<Rightarrow> v | None \<Rightarrow> d)"
| "getattr v name d = d"

section \<open>External calls and observable events\<close>

text \<open>
  The agents, the team and the terminal are outside the program.  A call of
  \<^verbatim>\<open>agent.run\<close> or \<^verbatim>\<open>team.run\<close> either raises or returns a value, so it is a function to
  \<open>exn + pyval\<close>; every call, every \<^verbatim>\<open>input\<close> and every \<^verbatim>\<open>print\<close> is recorded, in order,
  as an \<open>event\<close>.  \<open>ExternalError\<close> stands for any exception derived from
  \<^verbatim>\<open>Exception\<close> that an external call raises.
\<close>

type_synonym agent = "string \<Rightarrow> exn + pyval"

text \<open>
  What \<^verbatim>\<open>QueryRouter.route\<close> returns: one of its two clarifying f-strings, given by the
  interpolated reason, or whatever \<^verbatim>\<open>run_agents\<close> extracted from the team's response.
\<close>

datatype reply =
    NoEvidence string
  | CouldNotVerify string
  | Content pyval

datatype message =
    MsgExiting
  | MsgResponse reply
  | MsgValidating
  | MsgValidationComplete
  | MsgThanks
  | MsgProcessing string
  | MsgAnalysis string
  | MsgRule
  | MsgError exn
  | MsgTryAgain

datatype event =
    ReadLine
  | WebAgentRun string
  | ValidatorRun string
  | TeamRun string
  | Print message

section \<open>Fact checker and router (main.py)\<close>

record check_result =
  status :: string
  reason :: string

text \<open>The body of \<^verbatim>\<open>FactChecker.check\<close> after the call of the web agent.\<close>

definition check_verdict :: "pyval \<Rightarrow> check_result" where
  "check_verdict search_results =
     (let text = lower (py_str search_results)
      in if \<not> truthy search_results \<or> contains ''no results'' text
           then \<lparr>status = ''false'', reason = ''No evidence found in recent reports.''\<rparr>
         else if contains ''uncertain'' text \<or> contains ''rumor'' text \<or> contains ''unverified'' text
           then \<lparr>status = ''uncertain'', reason = ''Conflicting or insufficient evidence.''\<rparr>
         else \<lparr>status = ''verified'', reason = ''Evidence found in multiple sources.''\<rparr>)"

definition check :: "agent \<Rightarrow> string \<Rightarrow> event list \<times> (exn + check_result)" where
  "check web_agent query =
     (case web_agent query of
        Inl e \<Rightarrow> ([WebAgentRun query], Inl e)
      | Inr search_results \<Rightarrow> ([WebAgentRun query], Inr (check_verdict search_results)))"

text \<open>The unwrapping of the team's response in \<^verbatim>\<open>run_agents\<close>.\<close>

definition unwrap :: "pyval \<Rightarrow> pyval" where
  "unwrap response =
     (if hasattr response ''content'' then getattr response ''content'' PNone
      else case response of
             PDict kvs \<Rightarrow> (case map_of kvs ''content'' of
                             Some v \<Rightarrow> v
                           | None \<Rightarrow> PStr (py_str response))
           | PStr s \<Rightarrow> response
           | _ \<Rightarrow> PStr (py_str response))"

definition run_agents :: "agent \<Rightarrow> string \<Rightarrow> event list \<times> (exn + reply)" where
  "run_agents team query =
     (case team query of
        Inl e \<Rightarrow> ([TeamRun query], Inl e)
      | Inr response \<Rightarrow> ([TeamRun query], Inr (Content (unwrap response))))"

definition handle_fact_check ::
  "agent \<Rightarrow> string \<Rightarrow> check_result \<Rightarrow> event list \<times> (exn + reply)" where
  "handle_fact_check team query cr =
     (if status cr = ''false'' then ([], Inr (NoEvidence (reason cr)))
      else if status cr = ''uncertain'' then ([], Inr (CouldNotVerify (reason cr)))
      else run_agents team query)"

definition route :: "agent \<Rightarrow> agent \<Rightarrow> string \<Rightarrow> event list \<times> (exn + reply)" where
  "route web_agent team query =
     (let category = classify query
      in if category = ''finance_only'' then run_agents team query
         else if category = ''fact_check'' then
           (case check web_agent query of
              (evs, Inl e) \<Rightarrow> (evs, Inl e)
            | (evs, Inr cr) \<Rightarrow>
                (case handle_fact_check team query cr of (evs', r) \<Rightarrow> (evs @ evs', r)))
         else
           (case check web_agent query of
              (evs, Inl e) \<Rightarrow> (evs, Inl e)
            | (evs, Inr cr) \<Rightarrow>
                if status cr = ''verified''
                then (case run_agents team query of (evs', r) \<Rightarrow> (evs @ evs', r))
                else (case handle_fact_check team query cr of (evs', r) \<Rightarrow> (evs @ evs', r))))"

text \<open>
  The CLI loop of \<^verbatim>\<open>finance_team\<close>.  A turn is the line that \<^verbatim>\<open>input\<close> returns together
  with the behaviour of the web agent and of the team during that turn; at the end of the
  input \<^verbatim>\<open>input\<close> raises \<^verbatim>\<open>EOFError\<close>.
\<close>

datatype loop_end = Exited | Raised exn

type_synonym turn = "string \<times> agent \<times> agent"

fun finance_team_loop :: "turn list \<Rightarrow> event list \<times> loop_end" where
  "finance_team_loop [] = ([ReadLine], Raised EOFError)"
| "finance_team_loop ((query, web_agent, team) # rest) =
     (if lower query \<in> set [''exit'', ''quit''] then ([ReadLine, Print MsgExiting], Exited)
      else case route web_agent team query of
             (evs, Inl e) \<Rightarrow> (ReadLine # evs, Raised e)
           | (evs, Inr response) \<Rightarrow>
               (case finance_team_loop rest of
                  (evs', fin) \<Rightarrow> (ReadLine # evs @ [Print (MsgResponse response)] @ evs', fin)))"

section \<open>Validation-first pipeline (multi\_agent\_team\_market\_finance\_news.py)\<close>

text \<open>
  \<^verbatim>\<open>json.loads\<close> belongs to the Python library and is a parameter of the model: it maps a
  text to the parsed value or raises.  \<^verbatim>\<open>safe_parse_json\<close> receives whatever the
  \<^verbatim>\<open>content\<close> attribute of the validator's response holds; \<^verbatim>\<open>json.loads\<close> raises
  \<^verbatim>\<open>TypeError\<close> on an argument that is not text, and the handler catches every exception.
\<close>

definition safe_parse_json :: "(string \<Rightarrow> exn + pyval) \<Rightarrow> pyval \<Rightarrow> pyval" where
  "safe_parse_json json_loads text =
     (case text of
        PStr s \<Rightarrow> (case json_loads s of Inr v \<Rightarrow> v | Inl e \<Rightarrow> PDict [])
      | _ \<Rightarrow> PDict [])"

text \<open>\<^verbatim>\<open>v.get(key, default)\<close>: only a dict has the method.\<close>

definition dict_get :: "pyval \<Rightarrow> string \<Rightarrow> pyval \<Rightarrow> exn + pyval" where
  "dict_get v key d =
     (case v of
        PDict kvs \<Rightarrow> Inr (case map_of kvs key of Some x \<Rightarrow> x | None \<Rightarrow> d)
      | _ \<Rightarrow> Inl AttributeError)"

text \<open>\<^verbatim>\<open>text.split("\n\n")\<close>: cut at every occurrence of two line feeds, from the left.\<close>

fun split_blank :: "string \<Rightarrow> string list" where
  "split_blank [] = [[]]"
| "split_blank [c] = [[c]]"
| "split_blank (c # d # cs) =
     (if c = CHR 0x0A \<and> d = CHR 0x0A then [] # split_blank cs
      else case split_blank (d # cs) of
             p # ps \<Rightarrow> (c # p) # ps
           | [] \<Rightarrow> [[c]])"

text \<open>The loop of \<^verbatim>\<open>present_response\<close> over the parts, with its set and its list.\<close>

fun dedupe :: "string list \<Rightarrow> string set \<Rightarrow> string list \<Rightarrow> string list" where
  "dedupe [] seen cleaned = cleaned"
| "dedupe (p # parts) seen cleaned =
     (if p \<notin> seen then dedupe parts (insert p seen) (cleaned @ [p])
      else dedupe parts seen cleaned)"

text \<open>
  \<^verbatim>\<open>present_response\<close> from \<^verbatim>\<open>text.strip()\<close> on, for a text that is a \<^verbatim>\<open>str\<close>: strip, split,
  drop the repeated parts, join.
\<close>

definition clean_text :: "string \<Rightarrow> string" where
  "clean_text s = join [CHR 0x0A, CHR 0x0A] (dedupe (split_blank (strip s)) {} [])"

text \<open>Only a \<^verbatim>\<open>str\<close> has the method \<^verbatim>\<open>strip\<close>: on any other text the call raises.\<close>

definition present_response :: "pyval \<Rightarrow> exn + string" where
  "present_response team_response =
     (let c = getattr team_response ''content'' PNone;
          text = (if truthy c then c
                  else case team_response of
                         PDict kvs \<Rightarrow> (case map_of kvs ''content'' of Some v \<Rightarrow> v | None \<Rightarrow> PNone)
                       | _ \<Rightarrow> PStr (py_str team_response))
      in case text of
           PStr s \<Rightarrow> Inr (clean_text s)
         | _ \<Rightarrow> Inl AttributeError)"

definition validator_request :: "string \<Rightarrow> string" where
  "validator_request query =
     ''Please fact-check this query and provide enhanced context in JSON: '' @ query"

definition enhanced_prompt :: "string \<Rightarrow> string \<Rightarrow> string \<Rightarrow> string \<Rightarrow> string" where
  "enhanced_prompt query val_status val_summary val_sources =
     ''\<newline>        ORIGINAL USER QUERY: '' @ query @
     ''\<newline>\<newline>        FACT-CHECK STATUS: '' @ val_status @
     ''\<newline>        FACT-CHECK SUMMARY: '' @ val_summary @
     ''\<newline>        SOURCES: '' @ val_sources @
     ''\<newline>\<newline>        TEAM INSTRUCTIONS:'' @
     ''\<newline>        Based on the validated context above, provide a comprehensive financial analysis.'' @
     ''\<newline>        Use your own research + financial data, but do NOT repeat JSON blocks.'' @
     ''\<newline>        Structure your response with clear sections and confidence indicators.'' @
     ''\<newline>        ''"

text \<open>\<^verbatim>\<open>ValidationRouter.route\<close> of the structured variant.\<close>

definition validation_route ::
  "(string \<Rightarrow> exn + pyval) \<Rightarrow> agent \<Rightarrow> agent \<Rightarrow> string \<Rightarrow> event list \<times> (exn + string)" where
  "validation_route json_loads validator team query =
     (let evs0 = [Print MsgValidating, ValidatorRun (validator_request query)]
      in case validator (validator_request query) of
           Inl e \<Rightarrow> (evs0, Inl e)
         | Inr validation_result \<Rightarrow>
             (let evs1 = evs0 @ [Print MsgValidationComplete];
                  val_json = safe_parse_json json_loads
                    (getattr validation_result ''content'' (PStr (py_str validation_result)))
              in case dict_get val_json ''summary'' (PStr []) of
                   Inl e \<Rightarrow> (evs1, Inl e)
                 | Inr val_summary \<Rightarrow>
              (case dict_get val_json ''sources'' (PList []) of
                   Inl e \<Rightarrow> (evs1, Inl e)
                 | Inr val_sources \<Rightarrow>
              (case dict_get val_json ''status'' (PStr ''uncertain'') of
                   Inl e \<Rightarrow> (evs1, Inl e)
                 | Inr val_status \<Rightarrow>
                     (let prompt = enhanced_prompt query (py_str val_status)
                                     (py_str val_summary) (py_str val_sources)
                      in case team prompt of
                           Inl e \<Rightarrow> (evs1 @ [TeamRun prompt], Inl e)
                         | Inr team_response \<Rightarrow>
                             (evs1 @ [TeamRun prompt], present_response team_response))))))"

text \<open>The CLI loop of \<^verbatim>\<open>validated_finance_team\<close>; a turn as in \<open>finance_team_loop\<close>.\<close>

fun validated_finance_team_loop ::
  "(string \<Rightarrow> exn + pyval) \<Rightarrow> turn list \<Rightarrow> event list \<times> loop_end" where
  "validated_finance_team_loop json_loads [] = ([ReadLine], Raised EOFError)"
| "validated_finance_team_loop json_loads ((user_query, validator, team) # rest) =
     (if lower user_query \<in> {''exit'', ''quit'', ''bye''} then ([ReadLine, Print MsgThanks], Exited)
      else if \<not> truthy (PStr (strip user_query)) then
        (case validated_finance_team_loop json_loads rest of (evs', fin) \<Rightarrow> (ReadLine # evs', fin))
      else
        (case validated_finance_team_loop json_loads rest of
           (evs', fin) \<Rightarrow>
             (case validation_route json_loads validator team user_query of
                (evs, Inr response) \<Rightarrow>
                  (ReadLine # Print (MsgProcessing user_query) # evs
                     @ [Print (MsgAnalysis response), Print MsgRule] @ evs', fin)
              | (evs, Inl e) \<Rightarrow>
                  (ReadLine # Print (MsgProcessing user_query) # evs
                     @ [Print (MsgError e), Print MsgTryAgain] @ evs', fin))))"

section \<open>Validation-first pipeline, unstructured (milti\_agent\_team\_market\_finance\_news.py)\<close>

definition validator_request_raw :: "string \<Rightarrow> string" where
  "validator_request_raw query =
     ''Please fact-check this query and provide enhanced context: '' @ query"

definition enhanced_prompt_raw :: "string \<Rightarrow> string \<Rightarrow> string" where
  "enhanced_prompt_raw query validation_result =
     ''\<newline>        ORIGINAL USER QUERY: '' @ query @
     ''\<newline>        \<newline>        VALIDATION RESULTS:'' @
     ''\<newline>        '' @ validation_result @
     ''\<newline>        \<newline>        TEAM INSTRUCTIONS:'' @
     ''\<newline>        Based on the fact-check results above, provide comprehensive financial analysis.'' @
     ''\<newline>        Use the enhanced/corrected context from the validator to ensure accuracy.'' @
     ''\<newline>        Combine recent news research with concrete financial data and metrics.'' @
     ''\<newline>        Structure your response with clear sections and confidence indicators.'' @
     ''\<newline>        ''"

text \<open>\<^verbatim>\<open>ValidationRouter.route\<close> of this file returns the team's response as it is.\<close>

definition validation_route_raw :: "agent \<Rightarrow> agent \<Rightarrow> string \<Rightarrow> event list \<times> (exn + pyval)" where
  "validation_route_raw validator team query =
     (let evs0 = [Print MsgValidating, ValidatorRun (validator_request_raw query)]
      in case validator (validator_request_raw query) of
           Inl e \<Rightarrow> (evs0, Inl e)
         | Inr validation_result \<Rightarrow>
             (let evs1 = evs0 @ [Print MsgValidationComplete];
                  prompt = enhanced_prompt_raw query (py_str validation_result)
              in (evs1 @ [TeamRun prompt], team prompt)))"

section \<open>Observations on event sequences\<close>

fun is_team_run :: "event \<Rightarrow> bool" where
  "is_team_run (TeamRun p) = True"
| "is_team_run e = False"

text \<open>
  Stand-ins for an external function (an agent, the team, \<^verbatim>\<open>json.loads\<close>): one that returns
  a fixed value on every argument, one that raises on every argument.
\<close>

definition returning :: "pyval \<Rightarrow> string \<Rightarrow> exn + pyval" where
  "returning v x = Inr v"

definition raising :: "exn \<Rightarrow> string \<Rightarrow> exn + pyval" where
  "raising e x = Inl e"

text \<open>
  A response text of the validator in the format its prompt asks for, with the two fields
  \<open>status\<close> and \<open>summary\<close>, and a stand-in for \<^verbatim>\<open>json.loads\<close> that agrees with it on this
  text, on the empty object and on the empty array, and raises on every other text.
\<close>

definition sample_json_text :: string where
  "sample_json_text =
     ''{'' @ CHR 0x22 # ''status'' @ CHR 0x22 # '': '' @ CHR 0x22 # ''confirmed'' @ CHR 0x22 #
     '', '' @ CHR 0x22 # ''summary'' @ CHR 0x22 # '': '' @ CHR 0x22 # ''Recall announced'' @
     CHR 0x22 # ''}''"

definition json_loads_on_samples :: "string \<Rightarrow> exn + pyval" where
  "json_loads_on_samples s =
     (if s = sample_json_text
        then Inr (PDict [(''status'', PStr ''confirmed''), (''summary'', PStr ''Recall announced'')])
      else if s = ''{}'' then Inr (PDict [])
      else if s = ''[]'' then Inr (PList [])
      else Inl (ExternalError ''JSONDecodeError''))"

section \<open>Substrings and case\<close>

lemma contains_sublist: "contains k s \<longleftrightarrow> sublist k s"
  by (induction s) (auto simp: sublist_Cons_right)

lemma lower_char_idem: "lower_char (lower_char c) = lower_char c"
  unfolding lower_char_def Let_def by (auto simp: take_bit_eq_mod)

lemma lower_idem: "lower (lower s) = lower s"
  by (simp add: lower_def lower_char_idem)

section \<open>The classifier\<close>

lemma classify_cases:
  "classify q =
     (if \<exists>k \<in> set geo_keywords. sublist k (lower q) then ''fact_check''
      else if \<exists>t \<in> set ticker_keywords. sublist t (lower q) then ''finance_only''
      else ''mixed'')"
  by (simp add: classify_def list_ex_iff contains_sublist)

lemma classify_range: "classify q \<in> {''fact_check'', ''finance_only'', ''mixed''}"
  by (simp add: classify_def Let_def)

lemma classify_lower_cong: "lower q' = lower q \<Longrightarrow> classify q' = classify q"
  by (simp add: classify_def Let_def)

text \<open>
  Claim C2.  \<open>classify\<close> lower-cases the query; it returns \<open>fact_check\<close> when the lower-cased
  query has a geopolitical keyword as a substring, \<open>finance_only\<close> when it has a ticker
  keyword and no geopolitical keyword, and \<open>mixed\<close> otherwise, the first rule that matches
  deciding.  It always returns one of the three values, and two queries that differ only
  in the case of their letters are classified alike.
\<close>

theorem classify_spec:
  "classify q =
     (if \<exists>k \<in> set geo_keywords. sublist k (lower q) then ''fact_check''
      else if \<exists>t \<in> set ticker_keywords. sublist t (lower q) then ''finance_only''
      else ''mixed'')
   \<and> classify q \<in> {''fact_check'', ''finance_only'', ''mixed''}
   \<and> (\<forall>q'. lower q' = lower q \<longrightarrow> classify q' = classify q)"
  using classify_cases classify_range classify_lower_cong by blast

theorem classify_spec_witness:
  "classify ''Is NVDA a buy?'' = ''finance_only''
   \<and> classify ''TRUMP and nvda'' = ''fact_check''
   \<and> classify ''Fed rate outlook'' = ''mixed''
   \<and> classify ''IS nvda A BUY?'' = classify ''Is NVDA a buy?''"
proof -
  have g1: "\<not> (\<exists>k \<in> set geo_keywords. sublist k (lower ''Is NVDA a buy?''))" by code_simp
  have t1: "\<exists>t \<in> set ticker_keywords. sublist t (lower ''Is NVDA a buy?'')" by code_simp
  have g2: "\<exists>k \<in> set geo_keywords. sublist k (lower ''TRUMP and nvda'')" by code_simp
  have g3: "\<not> (\<exists>k \<in> set geo_keywords. sublist k (lower ''Fed rate outlook''))" by code_simp
  have t3: "\<not> (\<exists>t \<in> set ticker_keywords. sublist t (lower ''Fed rate outlook''))" by code_simp
  have l4: "lower ''IS nvda A BUY?'' = lower ''Is NVDA a buy?''" by code_simp
  from classify_spec [of "''Is NVDA a buy?''"] g1 t1 l4
  have "classify ''Is NVDA a buy?'' = ''finance_only''"
    and "classify ''IS nvda A BUY?'' = classify ''Is NVDA a buy?''" by auto
  moreover from classify_spec [of "''TRUMP and nvda''"] g2
  have "classify ''TRUMP and nvda'' = ''fact_check''" by auto
  moreover from classify_spec [of "''Fed rate outlook''"] g3 t3
  have "classify ''Fed rate outlook'' = ''mixed''" by auto
  ultimately show ?thesis by blast
qed

section \<open>Fact checker and router\<close>

lemma check_verdict_status:
  "status (check_verdict sr) =
     (if \<not> truthy sr \<or> sublist ''no results'' (lower (py_str sr)) then ''false''
      else if sublist ''uncertain'' (lower (py_str sr)) \<or> sublist ''rumor'' (lower (py_str sr))
              \<or> sublist ''unverified'' (lower (py_str sr)) then ''uncertain''
      else ''verified'')"
  by (simp add: check_verdict_def Let_def contains_sublist)

lemma check_verdict_range:
  "status (check_verdict sr) \<in> {''false'', ''uncertain'', ''verified''}"
  by (simp add: check_verdict_status)

lemma check_events: "fst (check web_agent q) = [WebAgentRun q]"
  by (simp add: check_def split: sum.splits)

lemma check_result: "snd (check web_agent q) = map_sum id check_verdict (web_agent q)"
  by (simp add: check_def split: sum.splits)

lemma check_status_range:
  "snd (check web_agent q) = Inr cr \<Longrightarrow> status cr \<in> {''false'', ''uncertain'', ''verified''}"
  using check_verdict_range by (auto simp: check_def split: sum.splits)

lemma run_agents_events: "fst (run_agents team q) = [TeamRun q]"
  by (simp add: run_agents_def split: sum.splits)

lemma route_finance_only:
  "classify q = ''finance_only'' \<Longrightarrow> route web_agent team q = run_agents team q"
  by (simp add: route_def)

lemma route_check_raises:
  "classify q \<noteq> ''finance_only'' \<Longrightarrow> snd (check web_agent q) = Inl e \<Longrightarrow>
   route web_agent team q = ([WebAgentRun q], Inl e)"
  using check_events [of web_agent q]
  by (cases "check web_agent q") (auto simp: route_def Let_def)

lemma route_checked:
  assumes "classify q \<noteq> ''finance_only''" and "snd (check web_agent q) = Inr cr"
  shows "route web_agent team q =
     (if status cr = ''false'' then ([WebAgentRun q], Inr (NoEvidence (reason cr)))
      else if status cr = ''uncertain'' then ([WebAgentRun q], Inr (CouldNotVerify (reason cr)))
      else (WebAgentRun q # fst (run_agents team q), snd (run_agents team q)))"
proof -
  from assms(2) check_events [of web_agent q]
  have c: "check web_agent q = ([WebAgentRun q], Inr cr)"
    by (cases "check web_agent q") auto
  show ?thesis
    using assms(1) c
    by (cases "run_agents team q") (auto simp: route_def Let_def handle_fact_check_def)
qed

text \<open>
  Claim C1.  \<^verbatim>\<open>QueryRouter.route\<close> calls the team, once and with the original query, exactly
  when the classification is \<open>finance_only\<close>, or it is \<open>fact_check\<close> or \<open>mixed\<close> and the
  fact checker returned the status \<open>verified\<close>; otherwise the team is not called.  When the
  classification is \<open>fact_check\<close> and the status is \<open>false\<close> or \<open>uncertain\<close>, the only event
  is the call of the web agent and the result is the matching clarifying message.
\<close>

theorem route_dispatch:
  "filter is_team_run (fst (route web_agent team q)) =
     (if classify q = ''finance_only''
         \<or> ((classify q = ''fact_check'' \<or> classify q = ''mixed'')
             \<and> (\<exists>cr. snd (check web_agent q) = Inr cr \<and> status cr = ''verified''))
      then [TeamRun q] else [])
   \<and> (classify q = ''fact_check'' \<longrightarrow>
        (\<forall>cr. snd (check web_agent q) = Inr cr \<longrightarrow>
           (status cr = ''false'' \<longrightarrow>
              route web_agent team q = ([WebAgentRun q], Inr (NoEvidence (reason cr))))
         \<and> (status cr = ''uncertain'' \<longrightarrow>
              route web_agent team q = ([WebAgentRun q], Inr (CouldNotVerify (reason cr))))))"
proof (cases "classify q = ''finance_only''")
  case True
  then show ?thesis by (simp add: route_finance_only run_agents_events)
next
  case nf: False
  with classify_range [of q] have fm: "classify q = ''fact_check'' \<or> classify q = ''mixed''"
    by auto
  show ?thesis
  proof (cases "snd (check web_agent q)")
    case (Inl e)
    with nf show ?thesis by (simp add: route_check_raises)
  next
    case (Inr cr)
    from check_status_range [OF Inr]
    have "status cr = ''false'' \<or> status cr = ''uncertain'' \<or> status cr = ''verified''" by simp
    with nf fm Inr show ?thesis
      by (auto simp: route_checked [OF nf Inr] run_agents_events)
  qed
qed


theorem route_dispatch_witness:
  "route (\<lambda>q. Inr (PStr ''No results found'')) (\<lambda>q. Inr (PStr ''report'')) ''trump''
     = ([WebAgentRun ''trump''], Inr (NoEvidence ''No evidence found in recent reports.''))
   \<and> filter is_team_run
        (fst (route (\<lambda>q. Inr (PStr ''No results found'')) (\<lambda>q. Inr (PStr ''report'')) ''nvda''))
     = [TeamRun ''nvda'']"
proof -
  have c: "classify ''trump'' = ''fact_check''" by code_simp
  have k: "snd (check (\<lambda>q. Inr (PStr ''No results found'')) ''trump'')
             = Inr \<lparr>status = ''false'', reason = ''No evidence found in recent reports.''\<rparr>"
    by code_simp
  have f: "classify ''nvda'' = ''finance_only''" by code_simp
  from route_dispatch [of "\<lambda>q. Inr (PStr ''No results found'')" "\<lambda>q. Inr (PStr ''report'')" "''trump''"] c k
  have "route (\<lambda>q. Inr (PStr ''No results found'')) (\<lambda>q. Inr (PStr ''report'')) ''trump''
     = ([WebAgentRun ''trump''], Inr (NoEvidence ''No evidence found in recent reports.''))"
    by simp
  moreover
  from route_dispatch [of "\<lambda>q. Inr (PStr ''No results found'')" "\<lambda>q. Inr (PStr ''report'')" "''nvda''"] f
  have "filter is_team_run
        (fst (route (\<lambda>q. Inr (PStr ''No results found'')) (\<lambda>q. Inr (PStr ''report'')) ''nvda''))
     = [TeamRun ''nvda'']"
    by simp
  ultimately show ?thesis by blast
qed

text \<open>
  Claim C3, as stated, fails on an output that is falsy: for the empty text
  \<^verbatim>\<open>not search_results\<close> holds and the status is \<open>false\<close>, although the text does not
  contain \<open>no results\<close>.
\<close>

theorem check_status_counterexample:
  "status (check_verdict (PStr [])) = ''false''
   \<and> \<not> sublist ''no results'' (lower (py_str (PStr [])))"
  by (simp add: check_verdict_def py_str_def lower_def)

text \<open>
  Claim C3, amended.  The status that \<^verbatim>\<open>FactChecker.check\<close> returns is \<open>false\<close> when the
  output of the research call is falsy or its lower-cased text contains \<open>no results\<close>;
  else \<open>uncertain\<close> when the text contains \<open>uncertain\<close>, \<open>rumor\<close> or \<open>unverified\<close>; else
  \<open>verified\<close>, the checks in this order.  On truthy outputs the result is a function of
  the text alone, and \<^verbatim>\<open>check\<close> applies this verdict to whatever the call returns.
\<close>

theorem check_status_spec:
  "status (check_verdict sr) =
     (if \<not> truthy sr \<or> sublist ''no results'' (lower (py_str sr)) then ''false''
      else if sublist ''uncertain'' (lower (py_str sr)) \<or> sublist ''rumor'' (lower (py_str sr))
              \<or> sublist ''unverified'' (lower (py_str sr)) then ''uncertain''
      else ''verified'')
   \<and> (\<forall>sr'. truthy sr \<and> truthy sr' \<and> py_str sr' = py_str sr
          \<longrightarrow> check_verdict sr' = check_verdict sr)
   \<and> snd (check web_agent q) = map_sum id check_verdict (web_agent q)"
  by (simp add: check_verdict_status check_result) (simp add: check_verdict_def)

theorem check_status_spec_witness:
  "status (check_verdict (PStr ''Only a RUMOR so far'')) = ''uncertain''
   \<and> check_verdict (PObj [] ''Only a RUMOR so far'') = check_verdict (PStr ''Only a RUMOR so far'')"
proof -
  have t: "truthy (PStr ''Only a RUMOR so far'')" "truthy (PObj [] ''Only a RUMOR so far'')"
    by simp_all
  have n: "\<not> sublist ''no results'' (lower (py_str (PStr ''Only a RUMOR so far'')))" by code_simp
  have r: "sublist ''rumor'' (lower (py_str (PStr ''Only a RUMOR so far'')))" by code_simp
  have e: "py_str (PObj [] ''Only a RUMOR so far'') = py_str (PStr ''Only a RUMOR so far'')"
    by (simp add: py_str_def)
  from check_status_spec [of "PStr ''Only a RUMOR so far''"] t n r e show ?thesis
    by (metis (full_types))
qed

text \<open>
  Claim C4.  For a query classified \<open>mixed\<close> the first event of \<^verbatim>\<open>QueryRouter.route\<close> is the
  fact checker's call of the web agent, and a call of the team can only follow it; for a
  query classified \<open>finance_only\<close> the only event is the call of the team, so the fact
  checker is not invoked.
\<close>

theorem route_fact_check_order:
  "(classify q = ''mixed'' \<longrightarrow>
      fst (route web_agent team q) = [WebAgentRun q]
      \<or> fst (route web_agent team q) = [WebAgentRun q, TeamRun q])
   \<and> (classify q = ''finance_only'' \<longrightarrow> fst (route web_agent team q) = [TeamRun q])"
proof (intro conjI impI)
  assume m: "classify q = ''mixed''"
  then have nf: "classify q \<noteq> ''finance_only''" by simp
  show "fst (route web_agent team q) = [WebAgentRun q]
      \<or> fst (route web_agent team q) = [WebAgentRun q, TeamRun q]"
  proof (cases "snd (check web_agent q)")
    case (Inl e)
    with nf show ?thesis by (simp add: route_check_raises)
  next
    case (Inr cr)
    show ?thesis by (simp add: route_checked [OF nf Inr] run_agents_events)
  qed
next
  assume "classify q = ''finance_only''"
  then show "fst (route web_agent team q) = [TeamRun q]"
    by (simp add: route_finance_only run_agents_events)
qed

theorem route_fact_check_order_witness:
  "fst (route (\<lambda>q. Inr (PStr ''Reuters confirms'')) (\<lambda>q. Inr (PStr ''report'')) ''Fed rate outlook'')
     = [WebAgentRun ''Fed rate outlook'', TeamRun ''Fed rate outlook'']
   \<and> fst (route (\<lambda>q. Inr (PStr ''Reuters confirms'')) (\<lambda>q. Inr (PStr ''report'')) ''nvda'')
     = [TeamRun ''nvda'']"
proof -
  have m: "classify ''Fed rate outlook'' = ''mixed''" by code_simp
  have f: "classify ''nvda'' = ''finance_only''" by code_simp
  have n: "fst (route (\<lambda>q. Inr (PStr ''Reuters confirms'')) (\<lambda>q. Inr (PStr ''report'')) ''Fed rate outlook'')
             \<noteq> [WebAgentRun ''Fed rate outlook'']" by code_simp
  from route_fact_check_order [of "''Fed rate outlook''" "\<lambda>q. Inr (PStr ''Reuters confirms'')" "\<lambda>q. Inr (PStr ''report'')"] m n
  have "fst (route (\<lambda>q. Inr (PStr ''Reuters confirms'')) (\<lambda>q. Inr (PStr ''report'')) ''Fed rate outlook'')
     = [WebAgentRun ''Fed rate outlook'', TeamRun ''Fed rate outlook'']" by blast
  moreover
  from route_fact_check_order [of "''nvda''" "\<lambda>q. Inr (PStr ''Reuters confirms'')" "\<lambda>q. Inr (PStr ''report'')"] f
  have "fst (route (\<lambda>q. Inr (PStr ''Reuters confirms'')) (\<lambda>q. Inr (PStr ''report'')) ''nvda'')
     = [TeamRun ''nvda'']" by blast
  ultimately show ?thesis by blast
qed

section \<open>The CLI loops\<close>

lemma strip_Nil_iff: "strip s = [] \<longleftrightarrow> (\<forall>c \<in> set s. isspace c)"
proof
  assume "strip s = []"
  then have "dropWhile isspace (rev (dropWhile isspace s)) = []" by (simp add: strip_def)
  then have a: "\<forall>c \<in> set (dropWhile isspace s). isspace c"
    by (simp add: dropWhile_eq_Nil_conv)
  have "dropWhile isspace s = []"
  proof (rule ccontr)
    assume n: "dropWhile isspace s \<noteq> []"
    then have "\<not> isspace (hd (dropWhile isspace s))" by (rule hd_dropWhile)
    moreover from n have "hd (dropWhile isspace s) \<in> set (dropWhile isspace s)" by simp
    ultimately show False using a by blast
  qed
  then show "\<forall>c \<in> set s. isspace c" by (simp only: dropWhile_eq_Nil_conv)
next
  assume "\<forall>c \<in> set s. isspace c"
  then have d: "dropWhile isspace s = []" by (simp add: dropWhile_eq_Nil_conv)
  show "strip s = []" unfolding strip_def d by simp
qed

lemma isspace_lower_char: "isspace c \<Longrightarrow> lower_char c = c"
  by (auto simp: isspace_def lower_char_def Let_def)

lemma blank_lower: "\<forall>c \<in> set s. isspace c \<Longrightarrow> lower s = s"
  by (simp add: lower_def isspace_lower_char map_idI)

lemma blank_not_reserved:
  "\<forall>c \<in> set s. isspace c \<Longrightarrow> s \<notin> {''exit'', ''quit'', ''bye''}"
  by (auto simp: isspace_def)

lemma keywords_not_blank:
  "\<forall>k \<in> set (geo_keywords @ ticker_keywords). \<exists>c \<in> set k. \<not> isspace c"
  by (simp add: geo_keywords_def ticker_keywords_def isspace_def)

lemma blank_classify:
  assumes "\<forall>c \<in> set s. isspace c"
  shows "classify s = ''mixed''"
proof -
  have "\<not> sublist k (lower s)" if "k \<in> set (geo_keywords @ ticker_keywords)" for k
  proof
    assume "sublist k (lower s)"
    then have "set k \<subseteq> set s" using assms by (simp add: blank_lower set_mono_sublist)
    with assms keywords_not_blank that show False by blast
  qed
  then show ?thesis by (auto simp: classify_cases)
qed

lemma route_mixed_first:
  "classify q = ''mixed'' \<Longrightarrow> \<exists>evs. fst (route web_agent team q) = WebAgentRun q # evs"
proof (cases "snd (check web_agent q)")
  case (Inl e)
  assume "classify q = ''mixed''"
  with Inl show ?thesis by (simp add: route_check_raises)
next
  case (Inr cr)
  assume "classify q = ''mixed''"
  then have nf: "classify q \<noteq> ''finance_only''" by simp
  show ?thesis by (simp add: route_checked [OF nf Inr])
qed

lemma finance_team_loop_routed:
  assumes "lower l \<notin> {''exit'', ''quit''}" and "classify l = ''mixed''"
  shows "take 2 (fst (finance_team_loop ((l, web_agent, team) # rest))) = [ReadLine, WebAgentRun l]"
proof -
  from route_mixed_first [OF assms(2)] obtain evs
    where "fst (route web_agent team l) = WebAgentRun l # evs" by blast
  with assms(1) show ?thesis
    by (cases "route web_agent team l") (auto split: sum.splits prod.splits)
qed

lemma bye_classify: "lower l = ''bye'' \<Longrightarrow> classify l = ''mixed''"
proof -
  assume a: "lower l = ''bye''"
  have "lower ''bye'' = ''bye''" by code_simp
  with a have "classify l = classify ''bye''" by (simp add: classify_lower_cong)
  also have "classify ''bye'' = ''mixed''" by code_simp
  finally show ?thesis .
qed

text \<open>
  Claim C8, amended.  In the loop of \<^verbatim>\<open>validated_finance_team\<close> each of \<open>exit\<close>, \<open>quit\<close> and
  \<open>bye\<close>, in any casing, ends the loop after the farewell message, with no call of the
  validator or of the team and without reading further input.  In the loop of
  \<^verbatim>\<open>finance_team\<close> (main.py) \<open>exit\<close> and \<open>quit\<close>, in any casing, do the same; \<open>bye\<close> is not
  reserved there: the line is routed, and the fact checker calls the web agent with it.
\<close>

theorem reserved_tokens_spec:
  "(lower l \<in> {''exit'', ''quit'', ''bye''} \<longrightarrow>
      validated_finance_team_loop json_loads ((l, validator, team) # rest)
        = ([ReadLine, Print MsgThanks], Exited))
   \<and> (lower l \<in> {''exit'', ''quit''} \<longrightarrow>
      finance_team_loop ((l, web_agent, team) # rest) = ([ReadLine, Print MsgExiting], Exited))
   \<and> (lower l = ''bye'' \<longrightarrow>
      take 2 (fst (finance_team_loop ((l, web_agent, team) # rest))) = [ReadLine, WebAgentRun l])"
proof (intro conjI impI)
  assume "lower l = ''bye''"
  then show "take 2 (fst (finance_team_loop ((l, web_agent, team) # rest))) = [ReadLine, WebAgentRun l]"
    by (intro finance_team_loop_routed bye_classify) simp_all
qed simp_all

text \<open>
  Claim C9, amended.  In the loop of \<^verbatim>\<open>validated_finance_team\<close> a line that is empty or
  consists of whitespace only is skipped: the turn reads the line and does nothing else,
  and the loop goes on with the next input.  In the loop of \<^verbatim>\<open>finance_team\<close> (main.py)
  such a line is not skipped: it is routed, and the fact checker calls the web agent
  with it.
\<close>

theorem blank_line_spec:
  "(strip l = [] \<longrightarrow>
      validated_finance_team_loop json_loads ((l, validator, team) # rest)
        = (ReadLine # fst (validated_finance_team_loop json_loads rest),
           snd (validated_finance_team_loop json_loads rest)))
   \<and> (strip l = [] \<longrightarrow>
      take 2 (fst (finance_team_loop ((l, web_agent, team) # rest))) = [ReadLine, WebAgentRun l])"
proof (intro conjI impI)
  assume "strip l = []"
  then have b: "\<forall>c \<in> set l. isspace c" by (simp add: strip_Nil_iff)
  then have "lower l \<notin> {''exit'', ''quit'', ''bye''}"
    using blank_not_reserved [OF b] by (simp add: blank_lower)
  with \<open>strip l = []\<close>
  show "validated_finance_team_loop json_loads ((l, validator, team) # rest)
        = (ReadLine # fst (validated_finance_team_loop json_loads rest),
           snd (validated_finance_team_loop json_loads rest))"
    by (simp split: prod.splits)
next
  assume "strip l = []"
  then have b: "\<forall>c \<in> set l. isspace c" by (simp add: strip_Nil_iff)
  then have "lower l \<notin> {''exit'', ''quit''}"
    using blank_not_reserved [OF b] by (simp add: blank_lower)
  then show "take 2 (fst (finance_team_loop ((l, web_agent, team) # rest))) = [ReadLine, WebAgentRun l]"
    using blank_classify [OF b] by (rule finance_team_loop_routed)
qed


text \<open>
  Claim C8, as stated, fails in main.py: its loop reserves only \<open>exit\<close> and \<open>quit\<close>, so the
  line \<open>bye\<close> is routed like any query, with a call of the web agent and of the team.
\<close>

theorem reserved_tokens_counterexample:
  "finance_team_loop
     [(''bye'', returning (PStr ''Reuters confirms''), returning (PStr ''report''))]
   = ([ReadLine, WebAgentRun ''bye'', TeamRun ''bye'',
       Print (MsgResponse (Content (PStr ''report''))), ReadLine], Raised EOFError)"
  by code_simp

theorem reserved_tokens_spec_witness:
  "validated_finance_team_loop (raising (ExternalError ''JSONDecodeError''))
     [(''Bye'', returning (PStr ''{}''), returning (PStr ''report'')),
      (''NVDA outlook'', returning (PStr ''{}''), returning (PStr ''report''))]
     = ([ReadLine, Print MsgThanks], Exited)
   \<and> finance_team_loop
       [(''EXIT'', returning (PStr ''Reuters confirms''), returning (PStr ''report''))]
     = ([ReadLine, Print MsgExiting], Exited)
   \<and> take 2 (fst (finance_team_loop
       [(''BYE'', returning (PStr ''Reuters confirms''), returning (PStr ''report''))]))
     = [ReadLine, WebAgentRun ''BYE'']"
proof -
  have a: "lower ''Bye'' \<in> {''exit'', ''quit'', ''bye''}" by code_simp
  have b: "lower ''EXIT'' \<in> {''exit'', ''quit''}" by code_simp
  have c: "lower ''BYE'' = ''bye''" by code_simp
  from a reserved_tokens_spec [where l = "''Bye''"]
  have "validated_finance_team_loop (raising (ExternalError ''JSONDecodeError''))
     [(''Bye'', returning (PStr ''{}''), returning (PStr ''report'')),
      (''NVDA outlook'', returning (PStr ''{}''), returning (PStr ''report''))]
     = ([ReadLine, Print MsgThanks], Exited)" by blast
  moreover from b reserved_tokens_spec [where l = "''EXIT''"]
  have "finance_team_loop
       [(''EXIT'', returning (PStr ''Reuters confirms''), returning (PStr ''report''))]
     = ([ReadLine, Print MsgExiting], Exited)" by blast
  moreover from c reserved_tokens_spec [where l = "''BYE''"]
  have "take 2 (fst (finance_team_loop
       [(''BYE'', returning (PStr ''Reuters confirms''), returning (PStr ''report''))]))
     = [ReadLine, WebAgentRun ''BYE'']" by blast
  ultimately show ?thesis by blast
qed

text \<open>
  Claim C9, as stated, fails in main.py: its loop has no test for an empty line, so the
  empty line is routed, the web agent and the team are called and a response is printed.
\<close>

theorem blank_line_counterexample:
  "finance_team_loop
     [([], returning (PStr ''Reuters confirms''), returning (PStr ''report''))]
   = ([ReadLine, WebAgentRun [], TeamRun [],
       Print (MsgResponse (Content (PStr ''report''))), ReadLine], Raised EOFError)"
  by code_simp

theorem blank_line_spec_witness:
  "validated_finance_team_loop (raising (ExternalError ''JSONDecodeError''))
     [(''  '', returning (PStr ''{}''), returning (PStr ''report'')),
      (''quit'', returning (PStr ''{}''), returning (PStr ''report''))]
     = ([ReadLine, ReadLine, Print MsgThanks], Exited)
   \<and> take 2 (fst (finance_team_loop
       [(''  '', returning (PStr ''Reuters confirms''), returning (PStr ''report''))]))
     = [ReadLine, WebAgentRun ''  '']"
proof -
  have s: "strip ''  '' = []" by code_simp
  have r: "validated_finance_team_loop (raising (ExternalError ''JSONDecodeError''))
     [(''quit'', returning (PStr ''{}''), returning (PStr ''report''))]
     = ([ReadLine, Print MsgThanks], Exited)" by code_simp
  from s blank_line_spec [where l = "''  ''" and json_loads = "raising (ExternalError ''JSONDecodeError'')"
      and rest = "[(''quit'', returning (PStr ''{}''), returning (PStr ''report''))]"]
  have "validated_finance_team_loop (raising (ExternalError ''JSONDecodeError''))
     [(''  '', returning (PStr ''{}''), returning (PStr ''report'')),
      (''quit'', returning (PStr ''{}''), returning (PStr ''report''))]
     = (ReadLine # fst (validated_finance_team_loop (raising (ExternalError ''JSONDecodeError''))
          [(''quit'', returning (PStr ''{}''), returning (PStr ''report''))]),
        snd (validated_finance_team_loop (raising (ExternalError ''JSONDecodeError''))
          [(''quit'', returning (PStr ''{}''), returning (PStr ''report''))]))"
    by blast
  with r have "validated_finance_team_loop (raising (ExternalError ''JSONDecodeError''))
     [(''  '', returning (PStr ''{}''), returning (PStr ''report'')),
      (''quit'', returning (PStr ''{}''), returning (PStr ''report''))]
     = ([ReadLine, ReadLine, Print MsgThanks], Exited)" by simp
  moreover from s blank_line_spec [where l = "''  ''"]
  have "take 2 (fst (finance_team_loop
       [(''  '', returning (PStr ''Reuters confirms''), returning (PStr ''report''))]))
     = [ReadLine, WebAgentRun ''  '']" by blast
  ultimately show ?thesis by blast
qed

section \<open>The presenter: unwrapping of the response\<close>

lemma present_response_str: "present_response (PStr s) = Inr (clean_text s)"
  by (simp add: present_response_def py_str_def)

lemma present_response_dict:
  "present_response (PDict kvs) =
     (case map_of kvs ''content'' of
        Some (PStr s) \<Rightarrow> Inr (clean_text s)
      | _ \<Rightarrow> Inl AttributeError)"
  by (simp add: present_response_def split: option.splits pyval.splits)

lemma present_response_obj:
  "map_of attrs ''content'' = Some (PStr s) \<Longrightarrow> s \<noteq> [] \<Longrightarrow>
   present_response (PObj attrs r) = Inr (clean_text s)"
  by (simp add: present_response_def)

lemma present_response_obj_falsy:
  "map_of attrs ''content'' = Some c \<Longrightarrow> \<not> truthy c \<Longrightarrow>
   present_response (PObj attrs r) = Inr (clean_text r)"
  by (simp add: present_response_def py_str_def)

lemma present_response_obj_not_text:
  "map_of attrs ''content'' = Some c \<Longrightarrow> truthy c \<Longrightarrow> \<forall>s. c \<noteq> PStr s \<Longrightarrow>
   present_response (PObj attrs r) = Inl AttributeError"
  by (cases c) (simp_all add: present_response_def)

lemma present_response_obj_no_field:
  "map_of attrs ''content'' = None \<Longrightarrow> present_response (PObj attrs r) = Inr (clean_text r)"
  by (simp add: present_response_def py_str_def)

lemma clean_text_Nil: "clean_text [] = []"
  by (simp add: clean_text_def strip_def)

text \<open>
  Claim C10, as stated, fails in both of its clauses.  For a dict whose \<open>content\<close> is the
  empty text the value taken from the dict is a \<^verbatim>\<open>str\<close>, \<^verbatim>\<open>strip\<close> succeeds, and the empty text
  is returned.  An object with a \<open>content\<close> field is not always handled: when the field
  holds a truthy value that is not a text, here the integer 5, \<^verbatim>\<open>strip\<close> is called on that
  value and raises.
\<close>

theorem present_response_dict_counterexample:
  "present_response (PDict [(''content'', PStr [])]) = Inr []
   \<and> present_response (PObj [(''content'', PInt 5)] ''RunResponse'') = Inl AttributeError"
  by (simp add: present_response_dict clean_text_Nil present_response_obj_not_text)

text \<open>
  Claim C10, amended.  \<^verbatim>\<open>present_response\<close> is not total: for every dict that has no key
  \<open>content\<close>, or whose \<open>content\<close> is \<^verbatim>\<open>None\<close>, it raises \<^verbatim>\<open>AttributeError\<close> instead of returning
  a text.  For a dict whose \<open>content\<close> is the empty text it returns the empty text.  An
  object with a \<open>content\<close> field is handled whenever the field holds a text or a falsy
  value: a non-empty text is cleaned and returned, and on a falsy value (the empty text,
  \<^verbatim>\<open>None\<close>) the \<^verbatim>\<open>str()\<close> of the object is cleaned and returned; when the field holds a
  truthy value that is not a text, the call raises \<^verbatim>\<open>AttributeError\<close>.  A plain text is
  handled: it is cleaned and returned.
\<close>

theorem present_response_unwrap_spec:
  "((map_of kvs ''content'' = None \<or> map_of kvs ''content'' = Some PNone)
      \<longrightarrow> present_response (PDict kvs) = Inl AttributeError)
   \<and> (map_of kvs ''content'' = Some (PStr []) \<longrightarrow> present_response (PDict kvs) = Inr [])
   \<and> (map_of attrs ''content'' = Some (PStr s) \<and> s \<noteq> []
      \<longrightarrow> present_response (PObj attrs r) = Inr (clean_text s))
   \<and> (map_of attrs ''content'' = Some c \<and> \<not> truthy c
      \<longrightarrow> present_response (PObj attrs r) = Inr (clean_text r))
   \<and> (map_of attrs ''content'' = Some c \<and> truthy c \<and> (\<forall>t. c \<noteq> PStr t)
      \<longrightarrow> present_response (PObj attrs r) = Inl AttributeError)
   \<and> present_response (PStr s) = Inr (clean_text s)"
  by (simp add: present_response_dict present_response_obj present_response_str clean_text_Nil
      present_response_obj_falsy present_response_obj_not_text)

theorem present_response_unwrap_spec_witness:
  "present_response (PDict [(''text'', PStr ''report'')]) = Inl AttributeError
   \<and> present_response (PDict [(''content'', PNone)]) = Inl AttributeError
   \<and> present_response (PDict [(''content'', PStr [])]) = Inr []
   \<and> present_response (PObj [(''content'', PStr ''report'')] ''RunResponse'') = Inr ''report''
   \<and> present_response (PObj [(''content'', PStr [])] ''RunResponse'') = Inr ''RunResponse''
   \<and> present_response (PObj [(''content'', PNone)] ''RunResponse'') = Inr ''RunResponse''
   \<and> present_response (PObj [(''content'', PInt 5)] ''RunResponse'') = Inl AttributeError
   \<and> present_response (PStr ''report'') = Inr ''report''"
proof -
  have c: "clean_text ''report'' = ''report''" by code_simp
  have d: "clean_text ''RunResponse'' = ''RunResponse''" by code_simp
  have "map_of [(''text'', PStr ''report'')] ''content'' = None" by simp
  with present_response_unwrap_spec [where kvs = "[(''text'', PStr ''report'')]"]
  have "present_response (PDict [(''text'', PStr ''report'')]) = Inl AttributeError" by blast
  moreover
  have "map_of [(''content'', PNone)] ''content'' = Some PNone" by simp
  with present_response_unwrap_spec [where kvs = "[(''content'', PNone)]"]
  have "present_response (PDict [(''content'', PNone)]) = Inl AttributeError" by blast
  moreover
  have "map_of [(''content'', PStr [])] ''content'' = Some (PStr [])" by simp
  with present_response_unwrap_spec [where kvs = "[(''content'', PStr [])]"]
  have "present_response (PDict [(''content'', PStr [])]) = Inr []" by blast
  moreover
  have "map_of [(''content'', PStr ''report'')] ''content'' = Some (PStr ''report'') \<and> ''report'' \<noteq> []"
    by simp
  with present_response_unwrap_spec [where attrs = "[(''content'', PStr ''report'')]" and s = "''report''"] c
  have "present_response (PObj [(''content'', PStr ''report'')] ''RunResponse'') = Inr ''report''"
    and "present_response (PStr ''report'') = Inr ''report''" by simp_all
  moreover
  have "map_of [(''content'', PStr [])] ''content'' = Some (PStr []) \<and> \<not> truthy (PStr [])" by simp
  with present_response_unwrap_spec [where attrs = "[(''content'', PStr [])]" and c = "PStr []"
      and r = "''RunResponse''"] d
  have "present_response (PObj [(''content'', PStr [])] ''RunResponse'') = Inr ''RunResponse''"
    by simp
  moreover
  have "map_of [(''content'', PNone)] ''content'' = Some PNone \<and> \<not> truthy PNone" by simp
  with present_response_unwrap_spec [where attrs = "[(''content'', PNone)]" and c = PNone
      and r = "''RunResponse''"] d
  have "present_response (PObj [(''content'', PNone)] ''RunResponse'') = Inr ''RunResponse''"
    by simp
  moreover
  have "map_of [(''content'', PInt 5)] ''content'' = Some (PInt 5) \<and> truthy (PInt 5)
          \<and> (\<forall>t. PInt 5 \<noteq> PStr t)" by simp
  with present_response_unwrap_spec [where attrs = "[(''content'', PInt 5)]" and c = "PInt 5"
      and r = "''RunResponse''"]
  have "present_response (PObj [(''content'', PInt 5)] ''RunResponse'') = Inl AttributeError"
    by blast
  ultimately show ?thesis by blast
qed

section \<open>The presenter: splitting, removing repetitions, joining\<close>

lemma split_blank_nonempty: "split_blank s \<noteq> []"
  by (induction s rule: split_blank.induct) (auto split: list.splits)

lemma join_Cons_Cons: "ps \<noteq> [] \<Longrightarrow> join sep ((c # p) # ps) = c # join sep (p # ps)"
  by (cases ps) simp_all

lemma join_split_blank: "join [CHR 0x0A, CHR 0x0A] (split_blank s) = s"
proof (induction s rule: split_blank.induct)
  case (3 c d cs)
  show ?case
  proof (cases "c = CHR 0x0A \<and> d = CHR 0x0A")
    case True
    with 3 split_blank_nonempty [of cs] show ?thesis
      by (cases "split_blank cs") auto
  next
    case False
    with 3 have ih: "join [CHR 0x0A, CHR 0x0A] (split_blank (d # cs)) = d # cs" by blast
    obtain q qs where q: "split_blank (d # cs) = q # qs"
      using split_blank_nonempty [of "d # cs"] by (cases "split_blank (d # cs)") auto
    with False ih show ?thesis
      by (cases qs) auto
  qed
qed simp_all

lemma split_blank_first:
  assumes "split_blank s = q # qs"
  shows "(q = [] \<and> (s = [] \<or> hd s = CHR 0x0A)) \<or> (q \<noteq> [] \<and> s \<noteq> [] \<and> hd q = hd s)"
proof -
  from join_split_blank [of s] assms have "s = join [CHR 0x0A, CHR 0x0A] (q # qs)" by simp
  then show ?thesis by (cases qs; cases q) auto
qed

lemma split_blank_single_Cons:
  assumes "split_blank (c # d # cs) = [c # d # cs]"
  shows "\<not> (c = CHR 0x0A \<and> d = CHR 0x0A) \<and> split_blank (d # cs) = [d # cs]"
  using assms split_blank_nonempty [of cs]
  by (auto split: if_splits list.splits)

lemma split_blank_append:
  "split_blank p = [p] \<Longrightarrow> p = [] \<or> last p \<noteq> CHR 0x0A \<Longrightarrow>
   split_blank (p @ CHR 0x0A # CHR 0x0A # rest) = p # split_blank rest"
proof (induction p rule: split_blank.induct)
  case 1
  then show ?case by simp
next
  case (2 c)
  then show ?case by simp
next
  case (3 c d cs)
  from split_blank_single_Cons [OF "3.prems"(1)]
  have n: "\<not> (c = CHR 0x0A \<and> d = CHR 0x0A)" and s: "split_blank (d # cs) = [d # cs]" by simp_all
  from "3.prems"(2) have "d # cs = [] \<or> last (d # cs) \<noteq> CHR 0x0A" by simp
  with "3.IH"(2) n s
  have "split_blank ((d # cs) @ CHR 0x0A # CHR 0x0A # rest) = (d # cs) # split_blank rest" by blast
  with n show ?case by simp
qed

lemma split_blank_join:
  "ps \<noteq> [] \<Longrightarrow> \<forall>p \<in> set ps. split_blank p = [p] \<and> (p = [] \<or> last p \<noteq> CHR 0x0A) \<Longrightarrow>
   split_blank (join [CHR 0x0A, CHR 0x0A] ps) = ps"
proof (induction ps)
  case Nil
  then show ?case by simp
next
  case (Cons p ps)
  show ?case
  proof (cases ps)
    case Nil
    with Cons.prems show ?thesis by simp
  next
    case (Cons q qs)
    with Cons.IH Cons.prems have "split_blank (join [CHR 0x0A, CHR 0x0A] ps) = ps" by simp
    with Cons Cons.prems show ?thesis by (simp add: split_blank_append)
  qed
qed

lemma split_blank_parts_single:
  "p \<in> set (split_blank s) \<Longrightarrow> split_blank p = [p]"
proof (induction s arbitrary: p rule: split_blank.induct)
  case 1
  then show ?case by simp
next
  case (2 c)
  then show ?case by simp
next
  case (3 c d cs)
  show ?case
  proof (cases "c = CHR 0x0A \<and> d = CHR 0x0A")
    case True
    with 3 show ?thesis by auto
  next
    case False
    obtain q qs where q: "split_blank (d # cs) = q # qs"
      using split_blank_nonempty [of "d # cs"] by (cases "split_blank (d # cs)") auto
    from q False have "split_blank (c # d # cs) = (c # q) # qs" by auto
    with "3.prems" have "p = c # q \<or> p \<in> set qs" by simp
    then show ?thesis
    proof
      assume "p \<in> set qs"
      with q False "3.IH"(2) show ?thesis by simp
    next
      assume p: "p = c # q"
      from q False "3.IH"(2) have sq: "split_blank q = [q]" by simp
      from split_blank_first [OF q] have "q = [] \<or> (q \<noteq> [] \<and> hd q = d)" by auto
      then show ?thesis
      proof
        assume "q = []" with p show ?thesis by simp
      next
        assume "q \<noteq> [] \<and> hd q = d"
        then obtain q' where "q = d # q'" by (cases q) auto
        with p sq False show ?thesis by simp
      qed
    qed
  qed
qed

lemma split_blank_parts_last:
  "s = [] \<or> last s \<noteq> CHR 0x0A \<Longrightarrow> p \<in> set (split_blank s) \<Longrightarrow> p = [] \<or> last p \<noteq> CHR 0x0A"
proof (induction s arbitrary: p rule: split_blank.induct)
  case 1
  then show ?case by simp
next
  case (2 c)
  then show ?case by simp
next
  case (3 c d cs)
  show ?case
  proof (cases "c = CHR 0x0A \<and> d = CHR 0x0A")
    case True
    from "3.prems"(1) have "cs = [] \<or> last cs \<noteq> CHR 0x0A" by (auto split: if_splits)
    with True 3 show ?thesis by auto
  next
    case False
    obtain q qs where q: "split_blank (d # cs) = q # qs"
      using split_blank_nonempty [of "d # cs"] by (cases "split_blank (d # cs)") auto
    from "3.prems"(1) have l: "d # cs = [] \<or> last (d # cs) \<noteq> CHR 0x0A" by simp
    from q False have "split_blank (c # d # cs) = (c # q) # qs" by auto
    with "3.prems"(2) have "p = c # q \<or> p \<in> set qs" by simp
    then show ?thesis
    proof
      assume "p \<in> set qs"
      with q False l "3.IH"(2) show ?thesis by simp
    next
      assume p: "p = c # q"
      from q False l "3.IH"(2) have lq: "q = [] \<or> last q \<noteq> CHR 0x0A" by simp
      from split_blank_first [OF q] have "q = [] \<longrightarrow> d = CHR 0x0A" by auto
      with p lq False show ?thesis by auto
    qed
  qed
qed

lemma dedupe_prefix: "\<exists>ys. dedupe ps seen cl = cl @ ys"
  by (induction ps arbitrary: seen cl) (auto, metis append.assoc)

lemma dedupe_nonempty: "ps \<noteq> [] \<Longrightarrow> dedupe ps {} [] \<noteq> []"
proof (cases ps)
  case (Cons p qs)
  from dedupe_prefix [of qs "{p}" "[p]"] Cons show ?thesis by auto
qed simp

lemma dedupe_subset: "set (dedupe ps seen cl) \<subseteq> set cl \<union> set ps"
  by (induction ps arbitrary: seen cl) (auto split: if_splits, fastforce+)

lemma dedupe_distinct: "distinct cl \<Longrightarrow> distinct (dedupe ps (set cl) cl)"
proof (induction ps arbitrary: cl)
  case Nil
  then show ?case by simp
next
  case (Cons a ps)
  show ?case
  proof (cases "a \<in> set cl")
    case True
    with Cons show ?thesis by simp
  next
    case False
    with Cons.prems have "distinct (cl @ [a])" by simp
    from Cons.IH [OF this] False show ?thesis by simp
  qed
qed

lemma dedupe_of_distinct: "distinct (cl @ ps) \<Longrightarrow> dedupe ps (set cl) cl = cl @ ps"
proof (induction ps arbitrary: cl)
  case Nil
  then show ?case by simp
next
  case (Cons a ps)
  then have "distinct ((cl @ [a]) @ ps)" and "a \<notin> set cl" by auto
  from Cons.IH [OF this(1)] this(2) show ?case by simp
qed


lemma strip_last: "strip s \<noteq> [] \<Longrightarrow> \<not> isspace (last (strip s))"
proof -
  assume a: "strip s \<noteq> []"
  then have n: "dropWhile isspace (rev (dropWhile isspace s)) \<noteq> []" by (simp add: strip_def)
  have "last (strip s) = hd (dropWhile isspace (rev (dropWhile isspace s)))"
    using n by (simp add: strip_def last_rev)
  with hd_dropWhile [OF n] show ?thesis by simp
qed

lemma strip_no_trailing_newline: "strip s = [] \<or> last (strip s) \<noteq> CHR 0x0A"
proof (cases "strip s = []")
  case False
  from strip_last [OF False] show ?thesis by (auto simp: isspace_def)
qed simp

lemma length_dropWhile_eq: "length (dropWhile P xs) = length xs \<Longrightarrow> dropWhile P xs = xs"
proof -
  assume a: "length (dropWhile P xs) = length xs"
  have "length (takeWhile P xs) + length (dropWhile P xs) = length xs"
    by (metis length_append takeWhile_dropWhile_id)
  with a have "takeWhile P xs = []" by simp
  then show ?thesis by (metis append_Nil takeWhile_dropWhile_id)
qed

lemma strip_length: "length (strip s) \<le> length s"
proof -
  have "length (strip s) \<le> length (dropWhile isspace s)"
    unfolding strip_def using length_dropWhile_le [of isspace "rev (dropWhile isspace s)"] by simp
  also have "\<dots> \<le> length s" by (rule length_dropWhile_le)
  finally show ?thesis .
qed

lemma strip_length_eq: "length (strip s) = length s \<Longrightarrow> strip s = s"
proof -
  assume a: "length (strip s) = length s"
  have b: "length (strip s) \<le> length (dropWhile isspace s)"
    unfolding strip_def using length_dropWhile_le [of isspace "rev (dropWhile isspace s)"] by simp
  with a length_dropWhile_le [of isspace s] have "length (dropWhile isspace s) = length s" by simp
  then have d: "dropWhile isspace s = s" by (rule length_dropWhile_eq)
  with a have "length (dropWhile isspace (rev s)) = length (rev s)" by (simp add: strip_def)
  then have "dropWhile isspace (rev s) = rev s" by (rule length_dropWhile_eq)
  with d show ?thesis by (simp add: strip_def)
qed

lemma length_join:
  "length (join sep ps) = sum_list (map length ps) + length sep * (length ps - 1)"
proof (induction ps)
  case Nil
  then show ?case by simp
next
  case (Cons p ps)
  then show ?case by (cases ps) simp_all
qed

lemma dedupe_sizes:
  "sum_list (map length (dedupe ps seen cl)) \<le> sum_list (map length (cl @ ps))
   \<and> length (dedupe ps seen cl) \<le> length (cl @ ps)"
proof (induction ps arbitrary: seen cl)
  case Nil
  then show ?case by simp
next
  case (Cons a ps)
  show ?case
  proof (cases "a \<in> seen")
    case True
    with Cons [of seen cl] show ?thesis by auto
  next
    case False
    with Cons [of "insert a seen" "cl @ [a]"] show ?thesis by auto
  qed
qed

lemma length_join_dedupe:
  "length (join sep (dedupe ps {} [])) \<le> length (join sep ps)"
proof -
  from dedupe_sizes [of ps "{}" "[]"]
  have a: "sum_list (map length (dedupe ps {} [])) \<le> sum_list (map length ps)"
    and b: "length (dedupe ps {} []) \<le> length ps" by simp_all
  from b have "length sep * (length (dedupe ps {} []) - 1) \<le> length sep * (length ps - 1)"
    by (simp add: diff_le_mono)
  with a show ?thesis unfolding length_join by (rule add_mono)
qed

lemma length_clean_text: "length (clean_text s) \<le> length (strip s)"
  using length_join_dedupe [of "[CHR 0x0A, CHR 0x0A]" "split_blank (strip s)"]
  by (simp add: clean_text_def join_split_blank)

lemma clean_text_parts:
  "split_blank (clean_text s) = dedupe (split_blank (strip s)) {} []"
proof -
  let ?parts = "split_blank (strip s)"
  let ?cl = "dedupe ?parts {} []"
  have ne: "?cl \<noteq> []" by (simp add: dedupe_nonempty split_blank_nonempty)
  have "\<forall>p \<in> set ?cl. split_blank p = [p] \<and> (p = [] \<or> last p \<noteq> CHR 0x0A)"
  proof
    fix p assume "p \<in> set ?cl"
    with dedupe_subset [of ?parts "{}" "[]"] have p: "p \<in> set ?parts" by auto
    from split_blank_parts_single [OF p]
      split_blank_parts_last [OF strip_no_trailing_newline p]
    show "split_blank p = [p] \<and> (p = [] \<or> last p \<noteq> CHR 0x0A)" by simp
  qed
  with ne show ?thesis unfolding clean_text_def by (rule split_blank_join)
qed

lemma dedupe_idem: "dedupe (dedupe ps {} []) {} [] = dedupe ps {} []"
proof -
  have "distinct (dedupe ps (set []) [])" by (rule dedupe_distinct) simp
  then have "distinct ([] @ dedupe ps {} [])" by simp
  from dedupe_of_distinct [OF this] show ?thesis by simp
qed

lemma clean_text_fixed: "clean_text (clean_text s) = clean_text s \<longleftrightarrow> strip (clean_text s) = clean_text s"
proof
  assume "strip (clean_text s) = clean_text s"
  then have "clean_text (clean_text s)
      = join [CHR 0x0A, CHR 0x0A] (dedupe (split_blank (clean_text s)) {} [])"
    by (simp add: clean_text_def [of "clean_text s"])
  also have "\<dots> = clean_text s"
    by (simp add: clean_text_parts dedupe_idem) (simp add: clean_text_def)
  finally show "clean_text (clean_text s) = clean_text s" .
next
  assume a: "clean_text (clean_text s) = clean_text s"
  from length_clean_text [of "clean_text s"] a
  have "length (clean_text s) \<le> length (strip (clean_text s))" by simp
  with strip_length [of "clean_text s"] have "length (strip (clean_text s)) = length (clean_text s)"
    by simp
  then show "strip (clean_text s) = clean_text s" by (rule strip_length_eq)
qed

lemma present_response_Inr: "present_response r = Inr out \<Longrightarrow> \<exists>s. out = clean_text s"
  by (auto simp: present_response_def Let_def split: pyval.splits if_splits option.splits)

text \<open>
  Claim C7, as stated, fails: when the last part is dropped as a repetition, the part that
  becomes last may end in whitespace, which the first application keeps and the second
  application strips.
\<close>

theorem present_idempotent_counterexample:
  "present_response (PStr ''a\<newline>\<newline>b \<newline>\<newline>a'') = Inr ''a\<newline>\<newline>b ''
   \<and> present_response (PStr ''a\<newline>\<newline>b '') = Inr ''a\<newline>\<newline>b''"
  by code_simp

text \<open>
  Claim C7, amended.  For every team response on which \<^verbatim>\<open>present_response\<close> returns a text,
  applying \<^verbatim>\<open>present_response\<close> to that text returns it unchanged if and only if the text
  has no leading or trailing whitespace, that is, \<^verbatim>\<open>strip\<close> leaves it unchanged.
\<close>

theorem present_idempotent_spec:
  "present_response r = Inr out \<Longrightarrow>
   (present_response (PStr out) = Inr out \<longleftrightarrow> strip out = out)"
proof -
  assume "present_response r = Inr out"
  then obtain s where "out = clean_text s" using present_response_Inr by blast
  then show ?thesis by (simp add: present_response_str clean_text_fixed)
qed

theorem present_idempotent_spec_witness:
  "present_response (PStr ''a\<newline>\<newline>b'') = Inr ''a\<newline>\<newline>b''
   \<and> present_response (PStr ''a\<newline>\<newline>b '') \<noteq> Inr ''a\<newline>\<newline>b ''"
proof -
  have a: "present_response (PStr ''a\<newline>\<newline>b\<newline>\<newline>a'') = Inr ''a\<newline>\<newline>b''" by code_simp
  have b: "strip ''a\<newline>\<newline>b'' = ''a\<newline>\<newline>b''" by code_simp
  have c: "present_response (PStr ''a\<newline>\<newline>b \<newline>\<newline>a'') = Inr ''a\<newline>\<newline>b ''" by code_simp
  have d: "strip ''a\<newline>\<newline>b '' \<noteq> ''a\<newline>\<newline>b ''" by code_simp
  from present_idempotent_spec [OF a] b
  have "present_response (PStr ''a\<newline>\<newline>b'') = Inr ''a\<newline>\<newline>b''" by blast
  moreover from present_idempotent_spec [OF c] d
  have "present_response (PStr ''a\<newline>\<newline>b '') \<noteq> Inr ''a\<newline>\<newline>b ''" by blast
  ultimately show ?thesis by blast
qed

section \<open>The validation-first routers\<close>

lemma enhanced_prompt_has_query:
  "sublist q (enhanced_prompt q val_status val_summary val_sources)"
  unfolding enhanced_prompt_def by (rule sublist_appendI)

lemma enhanced_prompt_raw_has_query: "sublist q (enhanced_prompt_raw q validation_result)"
  unfolding enhanced_prompt_raw_def by (rule sublist_appendI)

lemma enhanced_prompt_query_line:
  "sublist (''ORIGINAL USER QUERY: '' @ q) (enhanced_prompt q st su so)"
proof -
  have "\<exists>ss. enhanced_prompt q st su so
          = ''\<newline>        '' @ (''ORIGINAL USER QUERY: '' @ q) @ ss"
    by (simp add: enhanced_prompt_def)
  then show ?thesis unfolding sublist_def by blast
qed

lemma enhanced_prompt_status_line:
  "sublist (''FACT-CHECK STATUS: '' @ st) (enhanced_prompt q st su so)"
proof -
  have "\<exists>ss. enhanced_prompt q st su so
          = (''\<newline>        ORIGINAL USER QUERY: '' @ q @ ''\<newline>\<newline>        '')
            @ (''FACT-CHECK STATUS: '' @ st) @ ss"
    by (simp add: enhanced_prompt_def)
  then show ?thesis unfolding sublist_def by blast
qed

lemma enhanced_prompt_summary_line:
  "sublist (''FACT-CHECK SUMMARY: '' @ su) (enhanced_prompt q st su so)"
proof -
  have "\<exists>ss. enhanced_prompt q st su so
          = (''\<newline>        ORIGINAL USER QUERY: '' @ q @ ''\<newline>\<newline>        FACT-CHECK STATUS: '' @ st
               @ ''\<newline>        '')
            @ (''FACT-CHECK SUMMARY: '' @ su) @ ss"
    by (simp add: enhanced_prompt_def)
  then show ?thesis unfolding sublist_def by blast
qed

lemma enhanced_prompt_sources_line:
  "sublist (''SOURCES: '' @ so) (enhanced_prompt q st su so)"
proof -
  have "\<exists>ss. enhanced_prompt q st su so
          = (''\<newline>        ORIGINAL USER QUERY: '' @ q @ ''\<newline>\<newline>        FACT-CHECK STATUS: '' @ st
               @ ''\<newline>        FACT-CHECK SUMMARY: '' @ su @ ''\<newline>        '')
            @ (''SOURCES: '' @ so) @ ss"
    by (simp add: enhanced_prompt_def)
  then show ?thesis unfolding sublist_def by blast
qed

lemma enhanced_prompt_raw_query_line:
  "sublist (''ORIGINAL USER QUERY: '' @ q) (enhanced_prompt_raw q vr)"
proof -
  have "\<exists>ss. enhanced_prompt_raw q vr
          = ''\<newline>        '' @ (''ORIGINAL USER QUERY: '' @ q) @ ss"
    by (simp add: enhanced_prompt_raw_def)
  then show ?thesis unfolding sublist_def by blast
qed

lemma enhanced_prompt_raw_results:
  "sublist (''VALIDATION RESULTS:\<newline>        '' @ vr) (enhanced_prompt_raw q vr)"
proof -
  have "\<exists>ss. enhanced_prompt_raw q vr
          = (''\<newline>        ORIGINAL USER QUERY: '' @ q @ ''\<newline>        \<newline>        '')
            @ (''VALIDATION RESULTS:\<newline>        '' @ vr) @ ss"
    by (simp add: enhanced_prompt_raw_def)
  then show ?thesis unfolding sublist_def by blast
qed

lemma validation_route_first:
  "take 2 (fst (validation_route json_loads validator team q))
     = [Print MsgValidating, ValidatorRun (validator_request q)]"
  by (simp add: validation_route_def Let_def split: sum.splits)

lemma validation_route_raw_first:
  "take 2 (fst (validation_route_raw validator team q))
     = [Print MsgValidating, ValidatorRun (validator_request_raw q)]"
  by (simp add: validation_route_raw_def Let_def split: sum.splits)

lemma validation_route_validator_raises:
  "validator (validator_request q) = Inl e \<Longrightarrow>
   validation_route json_loads validator team q
     = ([Print MsgValidating, ValidatorRun (validator_request q)], Inl e)"
  by (simp add: validation_route_def)

lemma validation_route_raw_validator_raises:
  "validator (validator_request_raw q) = Inl e \<Longrightarrow>
   validation_route_raw validator team q
     = ([Print MsgValidating, ValidatorRun (validator_request_raw q)], Inl e)"
  by (simp add: validation_route_raw_def)

lemma validation_route_object:
  assumes "validator (validator_request q) = Inr v"
    and "safe_parse_json json_loads (getattr v ''content'' (PStr (py_str v))) = PDict kvs"
  shows "validation_route json_loads validator team q =
    ([Print MsgValidating, ValidatorRun (validator_request q), Print MsgValidationComplete,
      TeamRun (enhanced_prompt q
         (py_str (case map_of kvs ''status'' of Some x \<Rightarrow> x | None \<Rightarrow> PStr ''uncertain''))
         (py_str (case map_of kvs ''summary'' of Some x \<Rightarrow> x | None \<Rightarrow> PStr []))
         (py_str (case map_of kvs ''sources'' of Some x \<Rightarrow> x | None \<Rightarrow> PList [])))],
     case team (enhanced_prompt q
         (py_str (case map_of kvs ''status'' of Some x \<Rightarrow> x | None \<Rightarrow> PStr ''uncertain''))
         (py_str (case map_of kvs ''summary'' of Some x \<Rightarrow> x | None \<Rightarrow> PStr []))
         (py_str (case map_of kvs ''sources'' of Some x \<Rightarrow> x | None \<Rightarrow> PList []))) of
       Inl e \<Rightarrow> Inl e
     | Inr team_response \<Rightarrow> present_response team_response)"
  using assms by (simp add: validation_route_def Let_def dict_get_def split: sum.splits)

lemma validation_route_not_object:
  assumes "validator (validator_request q) = Inr v"
    and "\<forall>kvs. safe_parse_json json_loads (getattr v ''content'' (PStr (py_str v))) \<noteq> PDict kvs"
  shows "validation_route json_loads validator team q =
    ([Print MsgValidating, ValidatorRun (validator_request q), Print MsgValidationComplete],
     Inl AttributeError)"
  using assms
  by (cases "safe_parse_json json_loads (getattr v ''content'' (PStr (py_str v)))")
     (simp_all add: validation_route_def Let_def dict_get_def)

lemma validation_route_raw_returns:
  assumes "validator (validator_request_raw q) = Inr v"
  shows "validation_route_raw validator team q =
    ([Print MsgValidating, ValidatorRun (validator_request_raw q), Print MsgValidationComplete,
      TeamRun (enhanced_prompt_raw q (py_str v))],
     team (enhanced_prompt_raw q (py_str v)))"
  using assms by (simp add: validation_route_raw_def Let_def)

text \<open>
  Every way through the structured router: the validator raises, or the record is not a
  dict and \<^verbatim>\<open>get\<close> raises, or the team is called once with the enhanced prompt.
\<close>

lemma validation_route_outcomes:
  "(\<exists>e. validation_route json_loads validator team q
          = ([Print MsgValidating, ValidatorRun (validator_request q)], Inl e))
   \<or> validation_route json_loads validator team q
        = ([Print MsgValidating, ValidatorRun (validator_request q), Print MsgValidationComplete],
           Inl AttributeError)
   \<or> (\<exists>prompt. validation_route json_loads validator team q
          = ([Print MsgValidating, ValidatorRun (validator_request q), Print MsgValidationComplete,
              TeamRun prompt],
             case team prompt of Inl e \<Rightarrow> Inl e
             | Inr team_response \<Rightarrow> present_response team_response))"
proof (cases "validator (validator_request q)")
  case (Inl e)
  then show ?thesis by (simp add: validation_route_validator_raises)
next
  case (Inr v)
  show ?thesis
  proof (cases "\<exists>kvs. safe_parse_json json_loads (getattr v ''content'' (PStr (py_str v))) = PDict kvs")
    case True
    then obtain kvs
      where "safe_parse_json json_loads (getattr v ''content'' (PStr (py_str v))) = PDict kvs"
      by blast
    from validation_route_object [where json_loads = json_loads and validator = validator
        and q = q and v = v and kvs = kvs and team = team] Inr this
    show ?thesis by blast
  next
    case False
    then have "\<forall>kvs. safe_parse_json json_loads (getattr v ''content'' (PStr (py_str v))) \<noteq> PDict kvs"
      by blast
    from validation_route_not_object [where json_loads = json_loads and validator = validator
        and q = q and v = v and team = team] Inr this
    show ?thesis by blast
  qed
qed

lemma validation_route_value_needs_team:
  assumes "snd (validation_route json_loads validator team q) = Inr out"
  shows "\<exists>prompt. filter is_team_run (fst (validation_route json_loads validator team q))
           = [TeamRun prompt]"
  using validation_route_outcomes [of json_loads validator team q] assms by auto

lemma validation_route_team_at_most_once:
  "length (filter is_team_run (fst (validation_route json_loads validator team q))) \<le> 1"
  using validation_route_outcomes [of json_loads validator team q] by auto

lemma validation_route_raw_value_needs_team:
  assumes "snd (validation_route_raw validator team q) = Inr res"
  shows "\<exists>prompt. filter is_team_run (fst (validation_route_raw validator team q))
           = [TeamRun prompt]"
proof (cases "validator (validator_request_raw q)")
  case (Inl e)
  with assms show ?thesis by (simp add: validation_route_raw_validator_raises)
next
  case (Inr v)
  then show ?thesis by (simp add: validation_route_raw_returns)
qed

lemma validation_route_raw_team_at_most_once:
  "length (filter is_team_run (fst (validation_route_raw validator team q))) \<le> 1"
  by (cases "validator (validator_request_raw q)")
     (simp_all add: validation_route_raw_validator_raises validation_route_raw_returns)

text \<open>
  Claim C5, as stated, fails in milti\_agent\_team\_market\_finance\_news.py: that
  \<^verbatim>\<open>ValidationRouter.route\<close> parses nothing.  The prompt it forwards holds the text of the
  validator's whole result under \<open>VALIDATION RESULTS\<close> and has no status, summary or
  sources field.
\<close>

theorem validation_first_counterexample:
  "validation_route_raw (returning (PObj [(''content'', PStr ''{}'')] ''RunResponse''))
       (returning (PStr ''report'')) ''NVDA''
     = ([Print MsgValidating, ValidatorRun (validator_request_raw ''NVDA''),
         Print MsgValidationComplete, TeamRun (enhanced_prompt_raw ''NVDA'' ''RunResponse'')],
        Inr (PStr ''report''))
   \<and> \<not> contains ''STATUS'' (enhanced_prompt_raw ''NVDA'' ''RunResponse'')
   \<and> \<not> contains ''SOURCES'' (enhanced_prompt_raw ''NVDA'' ''RunResponse'')"
  by code_simp

text \<open>
  Claim C5, amended.  Both variants of \<^verbatim>\<open>ValidationRouter.route\<close> call the validator first,
  for every query and with no classification step, and have no branch that returns a
  clarifying message: whenever either of them returns a value, the team has been called
  exactly once, and neither calls the team more than once.  In the structured variant,
  when the validator returns and the record obtained from its response is a dict, the
  status, summary and sources of that record (by default \<open>uncertain\<close>, the empty text and
  the empty list) are embedded, each after its label, in the enhanced prompt, which
  contains the original query; the prompt is forwarded to the team exactly once and the
  presented response of the team is the result.  In the unstructured variant, when the
  validator returns, the text of its whole result is embedded after the label
  \<open>VALIDATION RESULTS\<close> in a prompt that contains the original query, the prompt is
  forwarded to the team exactly once and the team's response is returned.
\<close>

theorem validation_first_spec:
  "take 2 (fst (validation_route json_loads validator team q))
     = [Print MsgValidating, ValidatorRun (validator_request q)]
   \<and> (validator (validator_request q) = Inr v
       \<and> safe_parse_json json_loads (getattr v ''content'' (PStr (py_str v))) = PDict kvs \<longrightarrow>
       validation_route json_loads validator team q =
         ([Print MsgValidating, ValidatorRun (validator_request q), Print MsgValidationComplete,
           TeamRun (enhanced_prompt q
             (py_str (case map_of kvs ''status'' of Some x \<Rightarrow> x | None \<Rightarrow> PStr ''uncertain''))
             (py_str (case map_of kvs ''summary'' of Some x \<Rightarrow> x | None \<Rightarrow> PStr []))
             (py_str (case map_of kvs ''sources'' of Some x \<Rightarrow> x | None \<Rightarrow> PList [])))],
          case team (enhanced_prompt q
             (py_str (case map_of kvs ''status'' of Some x \<Rightarrow> x | None \<Rightarrow> PStr ''uncertain''))
             (py_str (case map_of kvs ''summary'' of Some x \<Rightarrow> x | None \<Rightarrow> PStr []))
             (py_str (case map_of kvs ''sources'' of Some x \<Rightarrow> x | None \<Rightarrow> PList []))) of
            Inl e \<Rightarrow> Inl e
          | Inr team_response \<Rightarrow> present_response team_response))
   \<and> (snd (validation_route json_loads validator team q) = Inr out \<longrightarrow>
       (\<exists>prompt. filter is_team_run (fst (validation_route json_loads validator team q))
          = [TeamRun prompt]))
   \<and> length (filter is_team_run (fst (validation_route json_loads validator team q))) \<le> 1
   \<and> sublist q (enhanced_prompt q val_status val_summary val_sources)
   \<and> sublist (''ORIGINAL USER QUERY: '' @ q) (enhanced_prompt q val_status val_summary val_sources)
   \<and> sublist (''FACT-CHECK STATUS: '' @ val_status)
        (enhanced_prompt q val_status val_summary val_sources)
   \<and> sublist (''FACT-CHECK SUMMARY: '' @ val_summary)
        (enhanced_prompt q val_status val_summary val_sources)
   \<and> sublist (''SOURCES: '' @ val_sources)
        (enhanced_prompt q val_status val_summary val_sources)
   \<and> take 2 (fst (validation_route_raw validator' team q))
     = [Print MsgValidating, ValidatorRun (validator_request_raw q)]
   \<and> (validator' (validator_request_raw q) = Inr v' \<longrightarrow>
       validation_route_raw validator' team q =
         ([Print MsgValidating, ValidatorRun (validator_request_raw q), Print MsgValidationComplete,
           TeamRun (enhanced_prompt_raw q (py_str v'))],
          team (enhanced_prompt_raw q (py_str v'))))
   \<and> (snd (validation_route_raw validator' team q) = Inr res \<longrightarrow>
       (\<exists>prompt. filter is_team_run (fst (validation_route_raw validator' team q))
          = [TeamRun prompt]))
   \<and> length (filter is_team_run (fst (validation_route_raw validator' team q))) \<le> 1
   \<and> sublist q (enhanced_prompt_raw q validation_result)
   \<and> sublist (''ORIGINAL USER QUERY: '' @ q) (enhanced_prompt_raw q validation_result)
   \<and> sublist (''VALIDATION RESULTS:\<newline>        '' @ validation_result)
        (enhanced_prompt_raw q validation_result)"
proof -
  have a: "validator (validator_request q) = Inr v
       \<and> safe_parse_json json_loads (getattr v ''content'' (PStr (py_str v))) = PDict kvs \<longrightarrow>
       validation_route json_loads validator team q =
         ([Print MsgValidating, ValidatorRun (validator_request q), Print MsgValidationComplete,
           TeamRun (enhanced_prompt q
             (py_str (case map_of kvs ''status'' of Some x \<Rightarrow> x | None \<Rightarrow> PStr ''uncertain''))
             (py_str (case map_of kvs ''summary'' of Some x \<Rightarrow> x | None \<Rightarrow> PStr []))
             (py_str (case map_of kvs ''sources'' of Some x \<Rightarrow> x | None \<Rightarrow> PList [])))],
          case team (enhanced_prompt q
             (py_str (case map_of kvs ''status'' of Some x \<Rightarrow> x | None \<Rightarrow> PStr ''uncertain''))
             (py_str (case map_of kvs ''summary'' of Some x \<Rightarrow> x | None \<Rightarrow> PStr []))
             (py_str (case map_of kvs ''sources'' of Some x \<Rightarrow> x | None \<Rightarrow> PList []))) of
            Inl e \<Rightarrow> Inl e
          | Inr team_response \<Rightarrow> present_response team_response)"
    using validation_route_object [where json_loads = json_loads and validator = validator
        and q = q and v = v and kvs = kvs and team = team] by blast
  have b: "snd (validation_route json_loads validator team q) = Inr out \<longrightarrow>
       (\<exists>prompt. filter is_team_run (fst (validation_route json_loads validator team q))
          = [TeamRun prompt])"
    using validation_route_value_needs_team by blast
  have c: "validator' (validator_request_raw q) = Inr v' \<longrightarrow>
       validation_route_raw validator' team q =
         ([Print MsgValidating, ValidatorRun (validator_request_raw q), Print MsgValidationComplete,
           TeamRun (enhanced_prompt_raw q (py_str v'))],
          team (enhanced_prompt_raw q (py_str v')))"
    using validation_route_raw_returns by blast
  have d: "snd (validation_route_raw validator' team q) = Inr res \<longrightarrow>
       (\<exists>prompt. filter is_team_run (fst (validation_route_raw validator' team q))
          = [TeamRun prompt])"
    using validation_route_raw_value_needs_team by blast
  from a b c d show ?thesis
    by (intro conjI validation_route_first validation_route_raw_first
        validation_route_team_at_most_once validation_route_raw_team_at_most_once
        enhanced_prompt_has_query enhanced_prompt_query_line enhanced_prompt_status_line
        enhanced_prompt_summary_line enhanced_prompt_sources_line
        enhanced_prompt_raw_has_query enhanced_prompt_raw_query_line enhanced_prompt_raw_results)
qed

theorem validation_first_spec_witness:
  "validation_route json_loads_on_samples
       (returning (PObj [(''content'', PStr sample_json_text)] ''RunResponse''))
       (returning (PStr ''report'')) ''NVDA''
     = ([Print MsgValidating, ValidatorRun (validator_request ''NVDA''), Print MsgValidationComplete,
         TeamRun (enhanced_prompt ''NVDA'' ''confirmed'' ''Recall announced'' ''[]'')],
        Inr ''report'')
   \<and> length (filter is_team_run (fst (validation_route json_loads_on_samples
          (returning (PObj [(''content'', PStr sample_json_text)] ''RunResponse''))
          (returning (PStr ''report'')) ''NVDA''))) = 1
   \<and> validation_route_raw (returning (PObj [(''content'', PStr sample_json_text)] ''RunResponse''))
          (returning (PStr ''report'')) ''NVDA''
     = ([Print MsgValidating, ValidatorRun (validator_request_raw ''NVDA''),
         Print MsgValidationComplete, TeamRun (enhanced_prompt_raw ''NVDA'' ''RunResponse'')],
        Inr (PStr ''report''))
   \<and> length (filter is_team_run (fst (validation_route_raw
          (returning (PObj [(''content'', PStr sample_json_text)] ''RunResponse''))
          (returning (PStr ''report'')) ''NVDA''))) = 1"
proof -
  let ?J = json_loads_on_samples
  let ?v = "PObj [(''content'', PStr sample_json_text)] ''RunResponse''"
  let ?V = "returning ?v"
  let ?T = "returning (PStr ''report'')"
  let ?kvs = "[(''status'', PStr ''confirmed''), (''summary'', PStr ''Recall announced'')]"
  note spec = validation_first_spec [where json_loads = ?J and validator = ?V and team = ?T
      and q = "''NVDA''" and v = ?v and validator' = ?V and v' = ?v and kvs = ?kvs
      and out = "''report''" and res = "PStr ''report''"]
  have a: "?V (validator_request ''NVDA'') = Inr ?v" by (simp add: returning_def)
  have b: "safe_parse_json ?J (getattr ?v ''content'' (PStr (py_str ?v))) = PDict ?kvs"
    by (simp add: safe_parse_json_def json_loads_on_samples_def)
  have c: "?V (validator_request_raw ''NVDA'') = Inr ?v" by (simp add: returning_def)
  have p: "present_response (PStr ''report'') = Inr ''report''" by code_simp
  from spec a b p
  have r1: "validation_route ?J ?V ?T ''NVDA''
     = ([Print MsgValidating, ValidatorRun (validator_request ''NVDA''), Print MsgValidationComplete,
         TeamRun (enhanced_prompt ''NVDA'' ''confirmed'' ''Recall announced'' ''[]'')],
        Inr ''report'')"
    by (simp add: py_str_def returning_def)
  then have "snd (validation_route ?J ?V ?T ''NVDA'') = Inr ''report''" by simp
  with spec obtain prompt
    where "filter is_team_run (fst (validation_route ?J ?V ?T ''NVDA'')) = [TeamRun prompt]"
    by blast
  then have n1: "length (filter is_team_run (fst (validation_route ?J ?V ?T ''NVDA''))) = 1"
    by simp
  from spec c
  have r2: "validation_route_raw ?V ?T ''NVDA''
     = ([Print MsgValidating, ValidatorRun (validator_request_raw ''NVDA''),
         Print MsgValidationComplete, TeamRun (enhanced_prompt_raw ''NVDA'' ''RunResponse'')],
        Inr (PStr ''report''))"
    by (simp add: py_str_def returning_def)
  then have "snd (validation_route_raw ?V ?T ''NVDA'') = Inr (PStr ''report'')" by simp
  with spec obtain prompt'
    where "filter is_team_run (fst (validation_route_raw ?V ?T ''NVDA'')) = [TeamRun prompt']"
    by blast
  then have n2: "length (filter is_team_run (fst (validation_route_raw ?V ?T ''NVDA''))) = 1"
    by simp
  from r1 n1 r2 n2 show ?thesis by blast
qed

text \<open>
  A validator response that is valid JSON but not an object (here an array) has no method
  \<^verbatim>\<open>get\<close>: \<^verbatim>\<open>ValidationRouter.route\<close> of the structured variant raises before the team is
  called.
\<close>

lemma validation_route_json_array:
  "validation_route json_loads_on_samples
       (returning (PObj [(''content'', PStr ''[]'')] ''RunResponse''))
       (returning (PStr ''report'')) ''NVDA''
     = ([Print MsgValidating, ValidatorRun (validator_request ''NVDA''), Print MsgValidationComplete],
        Inl AttributeError)"
  by code_simp

text \<open>
  Claim C6.  When \<^verbatim>\<open>json.loads\<close> raises on the text of the validator's response,
  \<^verbatim>\<open>safe_parse_json\<close> returns the empty dict, and \<^verbatim>\<open>ValidationRouter.route\<close> goes on without
  an error of its own: the prompt it forwards to the team has the status \<open>uncertain\<close>, an
  empty summary and the empty list of sources, and the result is what the team and the
  presenter produce.
\<close>

theorem parse_failure_spec:
  assumes "json_loads raw = Inl e"
    and "validator (validator_request q) = Inr v"
    and "getattr v ''content'' (PStr (py_str v)) = PStr raw"
  shows "safe_parse_json json_loads (PStr raw) = PDict []
   \<and> validation_route json_loads validator team q =
       ([Print MsgValidating, ValidatorRun (validator_request q), Print MsgValidationComplete,
         TeamRun (enhanced_prompt q ''uncertain'' [] ''[]'')],
        case team (enhanced_prompt q ''uncertain'' [] ''[]'') of
          Inl e' \<Rightarrow> Inl e'
        | Inr team_response \<Rightarrow> present_response team_response)"
proof -
  from assms(1) have p: "safe_parse_json json_loads (PStr raw) = PDict []"
    by (simp add: safe_parse_json_def)
  with assms(3) have "safe_parse_json json_loads (getattr v ''content'' (PStr (py_str v))) = PDict []"
    by simp
  with assms(2) p
    validation_route_object [where json_loads = json_loads and kvs = "[]" and team = team
      and validator = validator and q = q and v = v]
  show ?thesis by (simp add: py_str_def)
qed

theorem parse_failure_spec_witness:
  "validation_route (raising (ExternalError ''JSONDecodeError''))
       (returning (PObj [(''content'', PStr ''I could not verify this.'')] ''RunResponse''))
       (returning (PStr ''report'')) ''NVDA''
     = ([Print MsgValidating, ValidatorRun (validator_request ''NVDA''), Print MsgValidationComplete,
         TeamRun (enhanced_prompt ''NVDA'' ''uncertain'' [] ''[]'')],
        Inr ''report'')"
proof -
  let ?J = "raising (ExternalError ''JSONDecodeError'')"
  let ?v = "PObj [(''content'', PStr ''I could not verify this.'')] ''RunResponse''"
  have a: "?J ''I could not verify this.'' = Inl (ExternalError ''JSONDecodeError'')"
    by (simp add: raising_def)
  have b: "returning ?v (validator_request ''NVDA'') = Inr ?v" by (simp add: returning_def)
  have c: "getattr ?v ''content'' (PStr (py_str ?v)) = PStr ''I could not verify this.''" by simp
  have d: "present_response (PStr ''report'') = Inr ''report''" by code_simp
  have t: "returning (PStr ''report'') (enhanced_prompt ''NVDA'' ''uncertain'' [] ''[]'')
             = Inr (PStr ''report'')" by (simp add: returning_def)
  from parse_failure_spec [where json_loads = ?J and raw = "''I could not verify this.''"
      and e = "ExternalError ''JSONDecodeError''" and validator = "returning ?v" and q = "''NVDA''"
      and v = ?v and team = "returning (PStr ''report'')"] a b c
  have "validation_route ?J (returning ?v) (returning (PStr ''report'')) ''NVDA''
     = ([Print MsgValidating, ValidatorRun (validator_request ''NVDA''), Print MsgValidationComplete,
         TeamRun (enhanced_prompt ''NVDA'' ''uncertain'' [] ''[]'')],
        case returning (PStr ''report'') (enhanced_prompt ''NVDA'' ''uncertain'' [] ''[]'') of
          Inl e' \<Rightarrow> Inl e'
        | Inr team_response \<Rightarrow> present_response team_response)" by blast
  with t d show ?thesis by simp
qed

end
